theory Spec2Isabelle
  imports Main "HOL-Library.Word"
begin

unbundle bit_operations_syntax

section \<open>Aborts, assertions and sequencing\<close>

text \<open>
  The unit under verification is \<^verbatim>\<open>vm_version_solaris_sparc.cpp\<close>. It uses the
  HotSpot macros \<^verbatim>\<open>assert(cond, msg)\<close> and \<^verbatim>\<open>guarantee(cond, msg)\<close>, whose
  definitions live in another file. \<^verbatim>\<open>guarantee\<close> is checked in every build;
  \<^verbatim>\<open>assert\<close> is compiled in only in a build with assertions. Every function of
  the model that can reach an \<^verbatim>\<open>assert\<close> takes as its first argument \<open>chk\<close> the
  assertions that are checked, by their message: all of them in a debug build, none
  in a product build. A theorem stated for every \<open>chk\<close> holds for both builds, and
  also when only some assertions are watched. A failed check ends the process: the
  model returns \<open>Inl\<close> of the failure, and \<open>Inr\<close> of the result when the code
  returns.
\<close>

type_synonym checks = "string \<Rightarrow> bool"

definition debug_build :: checks where
  "debug_build msg = True"

definition product_build :: checks where
  "product_build msg = False"

datatype abort = AssertionFailed string | GuaranteeFailed string

definition vm_assert :: "checks \<Rightarrow> bool \<Rightarrow> string \<Rightarrow> abort + unit" where
  "vm_assert chk cond msg = (if chk msg \<and> \<not> cond then Inl (AssertionFailed msg) else Inr ())"

definition vm_guarantee :: "bool \<Rightarrow> string \<Rightarrow> abort + unit" where
  "vm_guarantee cond msg = (if \<not> cond then Inl (GuaranteeFailed msg) else Inr ())"

definition and_then :: "abort + 'a \<Rightarrow> ('a \<Rightarrow> abort + 'b) \<Rightarrow> abort + 'b" where
  "and_then r f = (case r of Inl e \<Rightarrow> Inl e | Inr x \<Rightarrow> f x)"

section \<open>The PICL device tree, as the library answers\<close>

text \<open>
  A node of the device tree is what the three property functions of libpicl answer
  for it. \<^verbatim>\<open>picl_get_prop_by_name\<close> finds a property handle by name or fails
  (\<open>None\<close>); \<^verbatim>\<open>picl_get_propinfo\<close> gives type and size or fails;
  \<^verbatim>\<open>picl_get_propval\<close> is asked for 8 or for 4 bytes and fails or fills the buffer.
\<close>

datatype picl_ptype = PICL_PTYPE_INT | PICL_PTYPE_UNSIGNED_INT | PICL_PTYPE_OTHER

record picl_propinfo =
  pi_type :: picl_ptype
  pi_size :: nat

record picl_prop =
  get_propinfo :: "picl_propinfo option"
  get_propval8 :: "64 word option"
  get_propval4 :: "32 word option"

type_synonym picl_node = "string \<Rightarrow> picl_prop option"

text \<open>
  \<^verbatim>\<open>get_int_property\<close>: \<open>Inr None\<close> is \<^verbatim>\<open>PICL_FAILURE\<close>, \<open>Inr (Some v)\<close> is
  \<^verbatim>\<open>PICL_SUCCESS\<close> with \<^verbatim>\<open>*result = v\<close>. The 64-bit value is cut to \<^verbatim>\<open>int\<close>
  by \<^verbatim>\<open>static_cast\<close>.
\<close>

definition get_int_property :: "checks \<Rightarrow> picl_node \<Rightarrow> string \<Rightarrow> abort + 32 word option" where
  "get_int_property chk nodeh name =
     (case nodeh name of
        None \<Rightarrow> Inr None
      | Some proph \<Rightarrow>
          (case get_propinfo proph of
             None \<Rightarrow> Inr None
           | Some pinfo \<Rightarrow>
               if pi_type pinfo \<noteq> PICL_PTYPE_INT \<and> pi_type pinfo \<noteq> PICL_PTYPE_UNSIGNED_INT
               then and_then (vm_assert chk False ''Invalid property type'') (\<lambda>_. Inr None)
               else if pi_size pinfo = 8
               then (case get_propval8 proph of
                       None \<Rightarrow> Inr None
                     | Some val \<Rightarrow> Inr (Some (ucast val)))
               else if pi_size pinfo = 4
               then (case get_propval4 proph of
                       None \<Rightarrow> Inr None
                     | Some val \<Rightarrow> Inr (Some val))
               else and_then (vm_assert chk False ''Unexpected integer property size'')
                      (\<lambda>_. Inr None)))"

section \<open>UniqueValueVisitor\<close>

datatype State = INITIAL | ASSIGNED | INCONSISTENT

record UniqueValueVisitor =
  m_state :: State
  m_value :: "32 word"

text \<open>
  The constructor sets only \<^verbatim>\<open>_state\<close>; \<^verbatim>\<open>_value\<close> keeps whatever the memory
  held, which the model takes as the argument \<open>junk\<close>.
\<close>

definition UniqueValueVisitor_new :: "32 word \<Rightarrow> UniqueValueVisitor" where
  "UniqueValueVisitor_new junk = \<lparr>m_state = INITIAL, m_value = junk\<rparr>"

definition UniqueValueVisitor_value :: "checks \<Rightarrow> UniqueValueVisitor \<Rightarrow> abort + 32 word" where
  "UniqueValueVisitor_value chk v =
     and_then (vm_assert chk (m_state v = ASSIGNED) ''Precondition'') (\<lambda>_. Inr (m_value v))"

definition set_value :: "checks \<Rightarrow> 32 word \<Rightarrow> UniqueValueVisitor \<Rightarrow> abort + UniqueValueVisitor" where
  "set_value chk val v =
     and_then (vm_assert chk (m_state v = INITIAL) ''Precondition'')
       (\<lambda>_. Inr (v\<lparr>m_value := val, m_state := ASSIGNED\<rparr>))"

definition is_initial :: "UniqueValueVisitor \<Rightarrow> bool" where
  "is_initial v = (m_state v = INITIAL)"

definition is_assigned :: "UniqueValueVisitor \<Rightarrow> bool" where
  "is_assigned v = (m_state v = ASSIGNED)"

definition is_inconsistent :: "UniqueValueVisitor \<Rightarrow> bool" where
  "is_inconsistent v = (m_state v = INCONSISTENT)"

definition set_inconsistent :: "UniqueValueVisitor \<Rightarrow> UniqueValueVisitor" where
  "set_inconsistent v = v\<lparr>m_state := INCONSISTENT\<rparr>"

text \<open>\<^verbatim>\<open>UniqueValueVisitor::visit\<close> returns its \<^verbatim>\<open>bool\<close> and the updated visitor.\<close>

definition UniqueValueVisitor_visit ::
  "checks \<Rightarrow> picl_node \<Rightarrow> string \<Rightarrow> UniqueValueVisitor \<Rightarrow> abort + (bool \<times> UniqueValueVisitor)" where
  "UniqueValueVisitor_visit chk nodeh name v =
     and_then (vm_assert chk (\<not> is_inconsistent v) ''Precondition'') (\<lambda>_.
     and_then (get_int_property chk nodeh name) (\<lambda>r.
       case r of
         Some cur \<Rightarrow>
           if \<not> is_assigned v
           then and_then (set_value chk cur v) (\<lambda>v'. Inr (True, v'))
           else and_then (UniqueValueVisitor_value chk v) (\<lambda>old.
                  if cur \<noteq> old then Inr (True, set_inconsistent v) else Inr (True, v))
       | None \<Rightarrow> Inr (False, v)))"

text \<open>
  The guarded call of \<^verbatim>\<open>CPUVisitor::visit\<close>,
  \<^verbatim>\<open>if (!x->is_inconsistent()) { x->visit(nodeh, name); }\<close>, which drops the
  \<^verbatim>\<open>bool\<close>. It is the way the L1 tracker is fed on every node and the L2 tracker on
  every node once the property name is known.
\<close>

definition visit_unless_inconsistent ::
  "checks \<Rightarrow> picl_node \<Rightarrow> string \<Rightarrow> UniqueValueVisitor \<Rightarrow> abort + UniqueValueVisitor" where
  "visit_unless_inconsistent chk nodeh name v =
     (if \<not> is_inconsistent v
      then and_then (UniqueValueVisitor_visit chk nodeh name v) (\<lambda>(ok, v'). Inr v')
      else Inr v)"

text \<open>One tracker fed by the guarded call on each node of a list, in order.\<close>

fun feed :: "checks \<Rightarrow> string \<Rightarrow> picl_node list \<Rightarrow> UniqueValueVisitor \<Rightarrow> abort + UniqueValueVisitor" where
  "feed chk name [] v = Inr v"
| "feed chk name (nodeh # nodes) v =
     and_then (visit_unless_inconsistent chk nodeh name v) (feed chk name nodes)"

section \<open>CPUVisitor and the walk\<close>

datatype walk_rc = PICL_WALK_CONTINUE | PICL_WALK_TERMINATE

record CPUVisitor =
  l1_visitor :: UniqueValueVisitor
  l2_visitor :: UniqueValueVisitor
  m_limit :: int

definition CPUVisitor_new :: "32 word \<Rightarrow> 32 word \<Rightarrow> int \<Rightarrow> CPUVisitor" where
  "CPUVisitor_new junk1 junk2 limit =
     \<lparr>l1_visitor = UniqueValueVisitor_new junk1,
      l2_visitor = UniqueValueVisitor_new junk2,
      m_limit = limit\<rparr>"

text \<open>
  \<^verbatim>\<open>l2_data_cache_line_property_name\<close> is a \<^verbatim>\<open>static\<close> local of
  \<^verbatim>\<open>CPUVisitor::visit\<close>: it starts as \<^verbatim>\<open>NULL\<close> (\<open>None\<close>) when the process starts
  and outlives the visitor. The model carries it beside the visitor.
\<close>

record walk_state =
  cpu_visitor :: CPUVisitor
  l2_data_cache_line_property_name :: "string option"

text \<open>The L2 part of \<^verbatim>\<open>CPUVisitor::visit\<close>: the new name and the new L2 tracker.\<close>

definition visit_l2 ::
  "checks \<Rightarrow> picl_node \<Rightarrow> string option \<Rightarrow> UniqueValueVisitor
     \<Rightarrow> abort + (string option \<times> UniqueValueVisitor)" where
  "visit_l2 chk nodeh name l2 =
     (case name of
        None \<Rightarrow>
          and_then (vm_assert chk (\<not> is_inconsistent l2)
                      ''First iteration cannot be inconsistent'') (\<lambda>_.
          and_then (UniqueValueVisitor_visit chk nodeh ''l2-cache-line-size'' l2) (\<lambda>(ok, l2').
            if \<not> ok
            then and_then (UniqueValueVisitor_visit chk nodeh ''l2-dcache-line-size'' l2')
                   (\<lambda>(ok', l2''). Inr (Some ''l2-dcache-line-size'', l2''))
            else Inr (Some ''l2-cache-line-size'', l2')))
      | Some nm \<Rightarrow>
          and_then (visit_unless_inconsistent chk nodeh nm l2) (\<lambda>l2'. Inr (Some nm, l2')))"

definition CPUVisitor_visit :: "checks \<Rightarrow> picl_node \<Rightarrow> walk_state \<Rightarrow> abort + (walk_rc \<times> walk_state)" where
  "CPUVisitor_visit chk nodeh s =
     and_then (visit_unless_inconsistent chk nodeh ''l1-dcache-line-size''
                 (l1_visitor (cpu_visitor s))) (\<lambda>l1.
     and_then (visit_l2 chk nodeh (l2_data_cache_line_property_name s)
                 (l2_visitor (cpu_visitor s))) (\<lambda>(name, l2).
       if is_inconsistent l1 \<and> is_inconsistent l2
       then Inr (PICL_WALK_TERMINATE,
                 \<lparr>cpu_visitor = (cpu_visitor s)\<lparr>l1_visitor := l1, l2_visitor := l2\<rparr>,
                  l2_data_cache_line_property_name = name\<rparr>)
       else
         let limit = m_limit (cpu_visitor s) - 1;
             s' = \<lparr>cpu_visitor = \<lparr>l1_visitor = l1, l2_visitor = l2, m_limit = limit\<rparr>,
                   l2_data_cache_line_property_name = name\<rparr>
         in if limit \<le> 0 then Inr (PICL_WALK_TERMINATE, s') else Inr (PICL_WALK_CONTINUE, s')))"

text \<open>
  \<^verbatim>\<open>picl_walk_tree_by_class\<close> is a function of libpicl: it calls the callback on the
  nodes of the class, in the order of the tree, until the callback answers
  \<^verbatim>\<open>PICL_WALK_TERMINATE\<close> or the nodes are used up. The model is given the nodes
  of the class in that order and returns the state after each call of the callback,
  so the number of visits is the length of the result.
\<close>

fun picl_walk_tree_by_class :: "checks \<Rightarrow> picl_node list \<Rightarrow> walk_state \<Rightarrow> abort + walk_state list" where
  "picl_walk_tree_by_class chk [] s = Inr []"
| "picl_walk_tree_by_class chk (nodeh # nodes) s =
     and_then (CPUVisitor_visit chk nodeh s) (\<lambda>(rc, s').
       if rc = PICL_WALK_TERMINATE then Inr [s']
       else and_then (picl_walk_tree_by_class chk nodes s') (\<lambda>tr. Inr (s' # tr)))"

section \<open>The PICL object: binding the library and probing the caches\<close>

text \<open>
  What the dynamic linker and libpicl answer during one construction of
  \<^verbatim>\<open>PICL\<close>: the handle of \<^verbatim>\<open>dlopen("libpicl.so.1")\<close> or \<^verbatim>\<open>NULL\<close>, the
  address \<^verbatim>\<open>dlsym\<close> finds for a name or \<^verbatim>\<open>NULL\<close>, whether
  \<^verbatim>\<open>picl_initialize\<close> and \<^verbatim>\<open>picl_get_root\<close> answer \<^verbatim>\<open>PICL_SUCCESS\<close>, the
  nodes of each class in walk order, \<^verbatim>\<open>os::processor_count()\<close>, and the contents
  of the two uninitialised \<^verbatim>\<open>_value\<close> members.
\<close>

record picl_env =
  dlopen_libpicl :: "nat option"
  dlsym :: "string \<Rightarrow> nat option"
  picl_initialize :: bool
  picl_get_root :: bool
  nodes_of_class :: "string \<Rightarrow> picl_node list"
  processor_count :: int
  junk_l1 :: "32 word"
  junk_l2 :: "32 word"

text \<open>
  Of the members of \<^verbatim>\<open>PICL\<close> the record keeps the two sizes and the handle. The
  seven function pointers are written by \<^verbatim>\<open>bind\<close> and only ever called after
  all seven were found; the calls are answered by \<open>picl_env\<close>.
\<close>

record PICL =
  m_L1_data_cache_line_size :: "32 word"
  m_L2_data_cache_line_size :: "32 word"
  m_dl_handle :: "nat option"

definition PICL_bind :: "picl_env \<Rightarrow> string \<Rightarrow> bool" where
  "PICL_bind env name = (dlsym env name \<noteq> None)"

definition bind_library_functions :: "checks \<Rightarrow> picl_env \<Rightarrow> PICL \<Rightarrow> abort + bool" where
  "bind_library_functions chk env picl =
     and_then (vm_assert chk (m_dl_handle picl \<noteq> None) ''library should be open'') (\<lambda>_.
       Inr (PICL_bind env ''picl_initialize'' \<and>
            PICL_bind env ''picl_shutdown'' \<and>
            PICL_bind env ''picl_get_root'' \<and>
            PICL_bind env ''picl_walk_tree_by_class'' \<and>
            PICL_bind env ''picl_get_prop_by_name'' \<and>
            PICL_bind env ''picl_get_propval'' \<and>
            PICL_bind env ''picl_get_propinfo''))"

definition close_library :: "checks \<Rightarrow> PICL \<Rightarrow> abort + PICL" where
  "close_library chk picl =
     and_then (vm_assert chk (m_dl_handle picl \<noteq> None) ''library should be open'') (\<lambda>_.
       Inr (picl\<lparr>m_dl_handle := None\<rparr>))"

definition open_library :: "checks \<Rightarrow> picl_env \<Rightarrow> PICL \<Rightarrow> abort + (bool \<times> PICL)" where
  "open_library chk env picl0 =
     (let picl = picl0\<lparr>m_dl_handle := dlopen_libpicl env\<rparr> in
      if m_dl_handle picl = None then Inr (False, picl)
      else and_then (bind_library_functions chk env picl) (\<lambda>bound.
        if \<not> bound
        then and_then (vm_assert chk False ''unexpected PICL API change'') (\<lambda>_.
             and_then (close_library chk picl) (\<lambda>picl'. Inr (False, picl')))
        else Inr (True, picl)))"

text \<open>
  The walk of the constructor: the class is \<^verbatim>\<open>"core"\<close> on a Fujitsu machine and
  \<^verbatim>\<open>"cpu"\<close> otherwise, the limit of the fresh visitor is 1 on a sun4v machine
  that is not Fujitsu and the processor count otherwise. The argument \<open>name\<close> is
  the static local of \<^verbatim>\<open>CPUVisitor::visit\<close> when the walk begins.
\<close>

definition PICL_walk_start :: "picl_env \<Rightarrow> string option \<Rightarrow> bool \<Rightarrow> bool \<Rightarrow> walk_state" where
  "PICL_walk_start env name is_fujitsu is_sun4v =
     \<lparr>cpu_visitor = CPUVisitor_new (junk_l1 env) (junk_l2 env)
                      (if is_sun4v \<and> \<not> is_fujitsu then 1 else processor_count env),
      l2_data_cache_line_property_name = name\<rparr>"

definition PICL_walk :: "checks \<Rightarrow> picl_env \<Rightarrow> string option \<Rightarrow> bool \<Rightarrow> bool \<Rightarrow> abort + walk_state list" where
  "PICL_walk chk env name is_fujitsu is_sun4v =
     picl_walk_tree_by_class chk (nodes_of_class env (if is_fujitsu then ''core'' else ''cpu''))
       (PICL_walk_start env name is_fujitsu is_sun4v)"

text \<open>The readout after the walk, for one tracker.\<close>

definition value_if_assigned :: "checks \<Rightarrow> UniqueValueVisitor \<Rightarrow> 32 word \<Rightarrow> abort + 32 word" where
  "value_if_assigned chk v field =
     (if is_assigned v then UniqueValueVisitor_value chk v else Inr field)"

text \<open>
  The constructor \<^verbatim>\<open>PICL::PICL(is_fujitsu, is_sun4v)\<close>: the constructed object and
  the static name after it.
\<close>

definition PICL_new ::
  "checks \<Rightarrow> picl_env \<Rightarrow> string option \<Rightarrow> bool \<Rightarrow> bool \<Rightarrow> abort + (PICL \<times> string option)" where
  "PICL_new chk env name is_fujitsu is_sun4v =
     and_then (open_library chk env
                 \<lparr>m_L1_data_cache_line_size = 0, m_L2_data_cache_line_size = 0,
                  m_dl_handle = None\<rparr>) (\<lambda>(opened, picl).
       if \<not> opened then Inr (picl, name)
       else
         and_then
           (if picl_initialize env
            then if picl_get_root env
                 then
                   and_then (PICL_walk chk env name is_fujitsu is_sun4v) (\<lambda>tr.
                     let s = (if tr = [] then PICL_walk_start env name is_fujitsu is_sun4v
                              else last tr)
                     in
                     and_then (value_if_assigned chk (l1_visitor (cpu_visitor s))
                                 (m_L1_data_cache_line_size picl)) (\<lambda>l1.
                     and_then (value_if_assigned chk (l2_visitor (cpu_visitor s))
                                 (m_L2_data_cache_line_size picl)) (\<lambda>l2.
                       Inr (picl\<lparr>m_L1_data_cache_line_size := l1,
                                 m_L2_data_cache_line_size := l2\<rparr>,
                            l2_data_cache_line_property_name s))))
                 else Inr (picl, name)
            else Inr (picl, name))
           (\<lambda>(picl', name').
              and_then (close_library chk picl') (\<lambda>picl''. Inr (picl'', name'))))"

section \<open>Feature bits\<close>

text \<open>
  The masks \<^verbatim>\<open>v8_instructions_m\<close>, ... are enumerators of \<^verbatim>\<open>VM_Version\<close>,
  declared in \<^verbatim>\<open>vm_version_sparc.hpp\<close>, and seven of the \<^verbatim>\<open>AV_SPARC_\<close> bits come
  from the system header \<^verbatim>\<open>sys/auxv_SPARC.h\<close>. Neither file is part of the unit, so
  the model takes their values as the parameters \<open>M\<close> and \<open>AV\<close>. The other
  capability bits are defined in the unit itself.
\<close>

datatype Feature_Flag_Set =
    v8_instructions_m | hardware_mul32_m | hardware_div32_m | hardware_fsmuld_m
  | hardware_popc_m | v9_instructions_m | vis1_instructions_m | vis2_instructions_m
  | sun4v_m | blk_init_instructions_m | fmaf_instructions_m | fmau_instructions_m
  | vis3_instructions_m | cbcond_instructions_m | sparc64_family_m | M_family_m
  | T_family_m | T1_model_m | sparc5_instructions_m | aes_instructions_m
  | sha1_instruction_m | sha256_instruction_m | sha512_instruction_m
  | generic_v8_m | generic_v9_m

datatype auxv_sparc =
    AV_SPARC_MUL32 | AV_SPARC_DIV32 | AV_SPARC_FSMULD | AV_SPARC_V8PLUS
  | AV_SPARC_POPC | AV_SPARC_VIS | AV_SPARC_VIS2

definition AV2_SPARC_SPARC5 :: "32 word" where "AV2_SPARC_SPARC5 = 0x00000008"
definition AV_SPARC_ASI_BLK_INIT :: "32 word" where "AV_SPARC_ASI_BLK_INIT = 0x0080"
definition AV_SPARC_FMAF :: "32 word" where "AV_SPARC_FMAF = 0x0100"
definition AV_SPARC_FMAU :: "32 word" where "AV_SPARC_FMAU = 0x0200"
definition AV_SPARC_VIS3 :: "32 word" where "AV_SPARC_VIS3 = 0x0400"
definition AV_SPARC_CBCOND :: "32 word" where "AV_SPARC_CBCOND = 0x10000000"
definition AV_SPARC_AES :: "32 word" where "AV_SPARC_AES = 0x00020000"
definition AV_SPARC_SHA1 :: "32 word" where "AV_SPARC_SHA1 = 0x00400000"
definition AV_SPARC_SHA256 :: "32 word" where "AV_SPARC_SHA256 = 0x00800000"
definition AV_SPARC_SHA512 :: "32 word" where "AV_SPARC_SHA512 = 0x01000000"

text \<open>
  What the operating system answers. One \<^verbatim>\<open>sysinfo\<close> command is asked twice in a
  row: for the size (\<open>si_needed\<close>; -1 is failure), and, after \<^verbatim>\<open>malloc\<close>
  (\<open>si_malloc\<close>: it did not return \<^verbatim>\<open>NULL\<close>), for the text (\<open>si_written\<close> is the
  value returned, \<open>si_buf\<close> the string left in the buffer). \<^verbatim>\<open>getisax\<close> leaves
  \<open>getisax_avs0\<close> and \<open>getisax_avs1\<close> in the array and returns \<open>getisax_avn\<close>.
\<close>

datatype si_command = SI_ARCHITECTURE_32 | SI_ARCHITECTURE_64 | SI_ISALIST | SI_MACHINE

record sysinfo_answer =
  si_needed :: int
  si_malloc :: bool
  si_written :: int
  si_buf :: string

datatype kstat_value = KSTAT_DATA_CHAR string | KSTAT_DATA_STRING string | KSTAT_DATA_OTHER

record kstat_named =
  kn_name :: string
  kn_value :: kstat_value

record kstat =
  kstat_read_ok :: bool
  ks_data :: "kstat_named list option"

record os_env =
  supports_getisax :: bool
  getisax_avn :: nat
  getisax_avs0 :: "32 word"
  getisax_avs1 :: "32 word"
  sysinfo :: "si_command \<Rightarrow> sysinfo_answer"
  kstat_lookup_cpu_info :: "kstat option"
  picl_lib :: picl_env

definition do_sysinfo :: "os_env \<Rightarrow> si_command \<Rightarrow> string \<Rightarrow> 32 word \<Rightarrow> 32 word \<Rightarrow> abort + 32 word" where
  "do_sysinfo env si str features flag =
     (let a = sysinfo env si in
      and_then (vm_guarantee (si_needed a \<noteq> - 1) ''must be supported'') (\<lambda>_.
        if \<not> si_malloc a then Inr features
        else if si_written a = si_needed a
        then (if si_buf a = str then Inr (features OR flag) else Inr features)
        else Inr features))"

subsection \<open>C strings\<close>

text \<open>
  A C string is the list of its characters before the terminating NUL. \<^verbatim>\<open>strstr\<close>
  returns the rest of the string from the first occurrence on, or \<^verbatim>\<open>NULL\<close>.
  Indexing at the length reads the NUL; the code never indexes further.
\<close>

fun strstr :: "string \<Rightarrow> string \<Rightarrow> string option" where
  "strstr [] needle = (if needle = [] then Some [] else None)"
| "strstr (c # cs) needle =
     (if take (length needle) (c # cs) = needle then Some (c # cs) else strstr cs needle)"

definition char_at :: "string \<Rightarrow> nat \<Rightarrow> char" where
  "char_at s i = (if i < length s then s ! i else CHR 0x00)"

definition toupper :: "char \<Rightarrow> char" where
  "toupper c =
     (let n = (of_char c :: nat) in if 97 \<le> n \<and> n \<le> 122 then char_of (n - 32) else c)"

subsection \<open>The instruction set: getisax, or the legacy list\<close>

definition set_if :: "bool \<Rightarrow> 32 word \<Rightarrow> 32 word \<Rightarrow> 32 word" where
  "set_if cond flag features = (if cond then features OR flag else features)"

text \<open>Lines 323 to 383: one test per capability bit, in the order of the source.\<close>

definition getisax_features ::
  "(Feature_Flag_Set \<Rightarrow> 32 word) \<Rightarrow> (auxv_sparc \<Rightarrow> 32 word) \<Rightarrow> nat \<Rightarrow> 32 word \<Rightarrow> 32 word
     \<Rightarrow> 32 word \<Rightarrow> 32 word" where
  "getisax_features M AV avn av av2 features =
     (let features = set_if (av AND AV AV_SPARC_MUL32 \<noteq> 0) (M hardware_mul32_m) features;
          features = set_if (av AND AV AV_SPARC_DIV32 \<noteq> 0) (M hardware_div32_m) features;
          features = set_if (av AND AV AV_SPARC_FSMULD \<noteq> 0) (M hardware_fsmuld_m) features;
          features = set_if (av AND AV AV_SPARC_V8PLUS \<noteq> 0) (M v9_instructions_m) features;
          features = set_if (av AND AV AV_SPARC_POPC \<noteq> 0) (M hardware_popc_m) features;
          features = set_if (av AND AV AV_SPARC_VIS \<noteq> 0) (M vis1_instructions_m) features;
          features = set_if (av AND AV AV_SPARC_VIS2 \<noteq> 0) (M vis2_instructions_m) features;
          features = (if avn > 1
                      then set_if (av2 AND AV2_SPARC_SPARC5 \<noteq> 0) (M sparc5_instructions_m) features
                      else features);
          features = set_if (av AND AV_SPARC_ASI_BLK_INIT \<noteq> 0) (M blk_init_instructions_m) features;
          features = set_if (av AND AV_SPARC_FMAF \<noteq> 0) (M fmaf_instructions_m) features;
          features = set_if (av AND AV_SPARC_FMAU \<noteq> 0) (M fmau_instructions_m) features;
          features = set_if (av AND AV_SPARC_VIS3 \<noteq> 0) (M vis3_instructions_m) features;
          features = set_if (av AND AV_SPARC_CBCOND \<noteq> 0) (M cbcond_instructions_m) features;
          features = set_if (av AND AV_SPARC_AES \<noteq> 0) (M aes_instructions_m) features;
          features = set_if (av AND AV_SPARC_SHA1 \<noteq> 0) (M sha1_instruction_m) features;
          features = set_if (av AND AV_SPARC_SHA256 \<noteq> 0) (M sha256_instruction_m) features;
          features = set_if (av AND AV_SPARC_SHA512 \<noteq> 0) (M sha512_instruction_m) features
      in features)"

text \<open>Lines 398 to 415: the text of \<^verbatim>\<open>SI_ISALIST\<close>.\<close>

definition isalist_features :: "(Feature_Flag_Set \<Rightarrow> 32 word) \<Rightarrow> string \<Rightarrow> 32 word \<Rightarrow> 32 word" where
  "isalist_features M buf features0 =
     (let features =
            (case strstr buf ''sparc'' of
               None \<Rightarrow> features0
             | Some sparc_string \<Rightarrow>
                 (let features = features0 OR M v8_instructions_m in
                  if char_at sparc_string 5 = CHR ''v''
                  then if char_at sparc_string 6 = CHR ''8''
                       then if char_at sparc_string 7 = CHR ''-''
                            then (features OR M hardware_mul32_m) OR M hardware_div32_m
                            else if char_at sparc_string 7 = CHR ''p''
                            then features OR M generic_v9_m
                            else features OR M generic_v8_m
                       else if char_at sparc_string 6 = CHR ''9''
                       then features OR M generic_v9_m
                       else features
                  else features))
      in case strstr buf ''vis'' of
           None \<Rightarrow> features
         | Some vis \<Rightarrow>
             (let features = features OR M vis1_instructions_m in
              if char_at vis 3 = CHR ''2'' then features OR M vis2_instructions_m else features))"

text \<open>Lines 299 to 419: the branch on \<^verbatim>\<open>supports_getisax\<close>.\<close>

definition isa_features ::
  "checks \<Rightarrow> (Feature_Flag_Set \<Rightarrow> 32 word) \<Rightarrow> (auxv_sparc \<Rightarrow> 32 word) \<Rightarrow> os_env \<Rightarrow> 32 word
     \<Rightarrow> abort + 32 word" where
  "isa_features chk M AV env features =
     (if supports_getisax env
      then
        and_then (do_sysinfo env SI_ARCHITECTURE_32 ''sparc'' features (M v8_instructions_m))
          (\<lambda>features.
        and_then (do_sysinfo env SI_ARCHITECTURE_64 ''sparcv9'' features (M generic_v9_m))
          (\<lambda>features.
        and_then (vm_assert chk (getisax_avn env \<le> 2) ''should return two or less av's'')
          (\<lambda>_. Inr (getisax_features M AV (getisax_avn env) (getisax_avs0 env)
                       (getisax_avs1 env) features))))
      else
        (let a = sysinfo env SI_ISALIST in
         if si_malloc a
         then if si_written a = si_needed a
              then Inr (isalist_features M (si_buf a) features)
              else Inr features
         else Inr features))"

subsection \<open>The implementation family, from kstat\<close>

text \<open>
  Lines 461 to 485: the text of the \<^verbatim>\<open>implementation\<close> entry is copied, put in
  upper case and matched. The result is the features and the value of the variable
  \<^verbatim>\<open>implementation\<close> afterwards.
\<close>

definition match_implementation ::
  "(Feature_Flag_Set \<Rightarrow> 32 word) \<Rightarrow> string \<Rightarrow> 32 word \<Rightarrow> 32 word \<times> string" where
  "match_implementation M implementation features =
     (let impl = map toupper implementation in
      if strstr impl ''SPARC64'' \<noteq> None
      then (features OR M sparc64_family_m, implementation)
      else if strstr impl ''SPARC-M'' \<noteq> None
      then (features OR (M M_family_m OR M T_family_m), implementation)
      else if strstr impl ''SPARC-T'' \<noteq> None
      then (let features = features OR M T_family_m in
            if strstr impl ''SPARC-T1'' \<noteq> None
            then (features OR M T1_model_m, implementation)
            else (features, implementation))
      else if strstr impl ''SPARC'' = None
      then (features, ''SPARC'')
      else (features, implementation))"

text \<open>
  The loop over the entries of the record: the first entry named
  \<^verbatim>\<open>implementation\<close> is used, and the loop ends there.
\<close>

fun kstat_scan ::
  "(Feature_Flag_Set \<Rightarrow> 32 word) \<Rightarrow> kstat_named list \<Rightarrow> 32 word \<Rightarrow> string \<Rightarrow> 32 word \<times> string" where
  "kstat_scan M [] features implementation = (features, implementation)"
| "kstat_scan M (k # knm) features implementation =
     (if kn_name k = ''implementation''
      then match_implementation M
             (case kn_value k of
                KSTAT_DATA_CHAR c \<Rightarrow> c
              | KSTAT_DATA_STRING s \<Rightarrow> s
              | KSTAT_DATA_OTHER \<Rightarrow> implementation)
             features
      else kstat_scan M knm features implementation)"

text \<open>Lines 424 to 494. \<^verbatim>\<open>kstat_open\<close> and \<^verbatim>\<open>strdup\<close> are taken to succeed.\<close>

definition kstat_features ::
  "checks \<Rightarrow> (Feature_Flag_Set \<Rightarrow> 32 word) \<Rightarrow> os_env \<Rightarrow> 32 word \<Rightarrow> abort + 32 word" where
  "kstat_features chk M env features =
     (let (features', implementation) =
            (case kstat_lookup_cpu_info env of
               None \<Rightarrow> (features, ''UNKNOWN'')
             | Some ksp \<Rightarrow>
                 if kstat_read_ok ksp
                 then (case ks_data ksp of
                         None \<Rightarrow> (features, ''UNKNOWN'')
                       | Some knm \<Rightarrow> kstat_scan M knm features ''UNKNOWN'')
                 else (features, ''UNKNOWN''))
      in and_then (vm_assert chk (implementation \<noteq> ''UNKNOWN'')
                     ''unknown cpu info (changed kstat interface?)'')
           (\<lambda>_. Inr features'))"

subsection \<open>platform_features\<close>

text \<open>Lines 296 to 494: everything of \<^verbatim>\<open>platform_features\<close> before the cache probe.\<close>

definition detect_features ::
  "checks \<Rightarrow> (Feature_Flag_Set \<Rightarrow> 32 word) \<Rightarrow> (auxv_sparc \<Rightarrow> 32 word) \<Rightarrow> os_env \<Rightarrow> 32 word
     \<Rightarrow> abort + 32 word" where
  "detect_features chk M AV env features =
     and_then (isa_features chk M AV env features) (\<lambda>features.
     and_then (do_sysinfo env SI_MACHINE ''sun4v'' features (M sun4v_m)) (\<lambda>features.
       kstat_features chk M env features))"

text \<open>
  The static members of \<^verbatim>\<open>VM_Version\<close> are the process-wide description of the
  CPU. The unit names one of them, \<^verbatim>\<open>_L2_data_cache_line_size\<close>; all the others
  are the extension of the record.
\<close>

record VM_Version =
  VM_L2_data_cache_line_size :: "32 word"

text \<open>
  \<^verbatim>\<open>VM_Version::platform_features\<close>: the value returned, the static members and
  the static local of \<^verbatim>\<open>CPUVisitor::visit\<close> afterwards.
\<close>

definition platform_features ::
  "checks \<Rightarrow> (Feature_Flag_Set \<Rightarrow> 32 word) \<Rightarrow> (auxv_sparc \<Rightarrow> 32 word) \<Rightarrow> os_env \<Rightarrow> string option
     \<Rightarrow> 'a VM_Version_scheme \<Rightarrow> 32 word
     \<Rightarrow> abort + (32 word \<times> 'a VM_Version_scheme \<times> string option)" where
  "platform_features chk M AV env name vm features0 =
     and_then (detect_features chk M AV env features0) (\<lambda>features.
     and_then (PICL_new chk (picl_lib env) name
                 (features AND M sparc64_family_m \<noteq> 0) (features AND M sun4v_m \<noteq> 0))
       (\<lambda>(picl, name').
          Inr (features,
               vm\<lparr>VM_L2_data_cache_line_size := m_L2_data_cache_line_size picl\<rparr>,
               name')))"

section \<open>Sample inputs\<close>

text \<open>Concrete nodes, environments and constants, on which the theorems are instantiated.\<close>

definition int_prop :: "32 word \<Rightarrow> picl_prop" where
  "int_prop v =
     \<lparr>get_propinfo = Some \<lparr>pi_type = PICL_PTYPE_INT, pi_size = 4\<rparr>,
      get_propval8 = None, get_propval4 = Some v\<rparr>"

definition sample_cpu :: "32 word \<Rightarrow> 32 word \<Rightarrow> picl_node" where
  "sample_cpu l1 l2 =
     (\<lambda>name. if name = ''l1-dcache-line-size'' then Some (int_prop l1)
              else if name = ''l2-cache-line-size'' then Some (int_prop l2)
              else None)"

definition sample_cpu_without_l2 :: "32 word \<Rightarrow> picl_node" where
  "sample_cpu_without_l2 l1 =
     (\<lambda>name. if name = ''l1-dcache-line-size'' then Some (int_prop l1) else None)"

definition sample_picl_env :: "picl_node list \<Rightarrow> int \<Rightarrow> picl_env" where
  "sample_picl_env cpus count =
     \<lparr>dlopen_libpicl = Some 1,
      dlsym = (\<lambda>name. Some 1),
      picl_initialize = True,
      picl_get_root = True,
      nodes_of_class = (\<lambda>cls. if cls = ''cpu'' then cpus else []),
      processor_count = count,
      junk_l1 = 0,
      junk_l2 = 0\<rparr>"

definition sample_picl_env_partial :: picl_env where
  "sample_picl_env_partial =
     (sample_picl_env [sample_cpu 64 64] 1)
       \<lparr>dlsym := (\<lambda>name. if name = ''picl_get_propinfo'' then None else Some 1)\<rparr>"

definition sample_picl_env_absent :: picl_env where
  "sample_picl_env_absent = (sample_picl_env [sample_cpu 64 64] 1)\<lparr>dlopen_libpicl := None\<rparr>"

text \<open>
  One bit per flag, in the order of the list, with \<^verbatim>\<open>generic_v8_m\<close> the v8 bit and
  \<^verbatim>\<open>generic_v9_m\<close> the union of the v8, v9, mul32, div32 and fsmuld bits.
\<close>

fun sample_M :: "Feature_Flag_Set \<Rightarrow> 32 word" where
  "sample_M v8_instructions_m = 0x000001"
| "sample_M hardware_mul32_m = 0x000002"
| "sample_M hardware_div32_m = 0x000004"
| "sample_M hardware_fsmuld_m = 0x000008"
| "sample_M hardware_popc_m = 0x000010"
| "sample_M v9_instructions_m = 0x000020"
| "sample_M vis1_instructions_m = 0x000040"
| "sample_M vis2_instructions_m = 0x000080"
| "sample_M sun4v_m = 0x000100"
| "sample_M blk_init_instructions_m = 0x000200"
| "sample_M fmaf_instructions_m = 0x000400"
| "sample_M fmau_instructions_m = 0x000800"
| "sample_M vis3_instructions_m = 0x001000"
| "sample_M cbcond_instructions_m = 0x002000"
| "sample_M sparc64_family_m = 0x004000"
| "sample_M M_family_m = 0x008000"
| "sample_M T_family_m = 0x010000"
| "sample_M T1_model_m = 0x020000"
| "sample_M sparc5_instructions_m = 0x040000"
| "sample_M aes_instructions_m = 0x080000"
| "sample_M sha1_instruction_m = 0x100000"
| "sample_M sha256_instruction_m = 0x200000"
| "sample_M sha512_instruction_m = 0x400000"
| "sample_M generic_v8_m = 0x000001"
| "sample_M generic_v9_m = 0x00002F"

text \<open>The values of the seven capability bits in the Solaris header.\<close>

fun solaris_AV :: "auxv_sparc \<Rightarrow> 32 word" where
  "solaris_AV AV_SPARC_MUL32 = 0x0001"
| "solaris_AV AV_SPARC_DIV32 = 0x0002"
| "solaris_AV AV_SPARC_FSMULD = 0x0004"
| "solaris_AV AV_SPARC_V8PLUS = 0x0008"
| "solaris_AV AV_SPARC_POPC = 0x0010"
| "solaris_AV AV_SPARC_VIS = 0x0020"
| "solaris_AV AV_SPARC_VIS2 = 0x0040"

definition sample_sysinfo :: "string \<Rightarrow> sysinfo_answer" where
  "sample_sysinfo txt =
     \<lparr>si_needed = int (length txt) + 1, si_malloc = True,
      si_written = int (length txt) + 1, si_buf = txt\<rparr>"

text \<open>
  A machine that answers \<^verbatim>\<open>"sparc"\<close> and \<^verbatim>\<open>"sparcv9"\<close> for the two
  architectures; the other answers are the arguments.
\<close>

definition sample_os_env ::
  "bool \<Rightarrow> 32 word \<Rightarrow> string \<Rightarrow> string \<Rightarrow> string \<Rightarrow> picl_env \<Rightarrow> os_env" where
  "sample_os_env isax av isalist machine impl penv =
     \<lparr>supports_getisax = isax,
      getisax_avn = 1,
      getisax_avs0 = av,
      getisax_avs1 = 0,
      sysinfo = (\<lambda>si. case si of
                   SI_ARCHITECTURE_32 \<Rightarrow> sample_sysinfo ''sparc''
                 | SI_ARCHITECTURE_64 \<Rightarrow> sample_sysinfo ''sparcv9''
                 | SI_ISALIST \<Rightarrow> sample_sysinfo isalist
                 | SI_MACHINE \<Rightarrow> sample_sysinfo machine),
      kstat_lookup_cpu_info =
        Some \<lparr>kstat_read_ok = True,
              ks_data = Some [\<lparr>kn_name = ''cpu_type'', kn_value = KSTAT_DATA_CHAR ''sparcv9''\<rparr>,
                              \<lparr>kn_name = ''implementation'', kn_value = KSTAT_DATA_STRING impl\<rparr>]\<rparr>,
      picl_lib = penv\<rparr>"

section \<open>Sequencing and checks\<close>


lemma and_then_Inr [simp]: "and_then (Inr x) f = f x"
  by (simp add: and_then_def)

lemma and_then_Inl [simp]: "and_then (Inl e) f = Inl e"
  by (simp add: and_then_def)

lemma vm_assert_holds [simp]: "vm_assert chk True msg = Inr ()"
  by (simp add: vm_assert_def product_build_def)

lemma vm_assert_product [simp]: "vm_assert product_build cond msg = Inr ()"
  by (simp add: vm_assert_def product_build_def)

section \<open>One tracker\<close>

lemma visit_reading_initial:
  assumes "get_int_property chk nodeh name = Inr (Some x)" and "m_state v = INITIAL"
  shows "UniqueValueVisitor_visit chk nodeh name v = Inr (True, v\<lparr>m_value := x, m_state := ASSIGNED\<rparr>)"
  using assms
  by (simp add: UniqueValueVisitor_visit_def is_inconsistent_def is_assigned_def set_value_def)

lemma visit_reading_assigned:
  assumes "get_int_property chk nodeh name = Inr (Some x)" and "m_state v = ASSIGNED"
  shows "UniqueValueVisitor_visit chk nodeh name v =
           Inr (True, if x \<noteq> m_value v then set_inconsistent v else v)"
  using assms
  by (simp add: UniqueValueVisitor_visit_def is_inconsistent_def is_assigned_def
      UniqueValueVisitor_value_def)

lemma guarded_inconsistent [simp]:
  "is_inconsistent v \<Longrightarrow> visit_unless_inconsistent chk nodeh name v = Inr v"
  by (simp add: visit_unless_inconsistent_def)

lemma guarded_reading:
  assumes "get_int_property chk nodeh name = Inr (Some x)"
  shows "visit_unless_inconsistent chk nodeh name v =
           Inr (case m_state v of
                  INITIAL \<Rightarrow> v\<lparr>m_value := x, m_state := ASSIGNED\<rparr>
                | ASSIGNED \<Rightarrow> (if x \<noteq> m_value v then set_inconsistent v else v)
                | INCONSISTENT \<Rightarrow> v)"
proof (cases "m_state v")
  case INITIAL
  then show ?thesis
    using visit_reading_initial [OF assms INITIAL]
    by (simp add: visit_unless_inconsistent_def is_inconsistent_def)
next
  case ASSIGNED
  then show ?thesis
    using visit_reading_assigned [OF assms ASSIGNED]
    by (simp add: visit_unless_inconsistent_def is_inconsistent_def)
next
  case INCONSISTENT
  then show ?thesis by (simp add: is_inconsistent_def)
qed

lemma feed_inconsistent [simp]: "is_inconsistent v \<Longrightarrow> feed chk name nodes v = Inr v"
  by (induction nodes) simp_all

lemma feed_append: "feed chk name (ns @ ms) v = and_then (feed chk name ns v) (feed chk name ms)"
proof (induction ns arbitrary: v)
  case Nil
  show ?case by simp
next
  case (Cons n ns)
  show ?case
    by (cases "visit_unless_inconsistent chk n name v") (simp_all add: Cons.IH)
qed

lemma guarded_no_reading:
  assumes "get_int_property chk nodeh name = Inr None"
  shows "visit_unless_inconsistent chk nodeh name v = Inr v"
  using assms
  by (simp add: visit_unless_inconsistent_def UniqueValueVisitor_visit_def)

lemma feed_from_assigned:
  assumes "list_all2 (\<lambda>nodeh r. get_int_property chk nodeh name = Inr r) nodes rs"
    and "m_state v = ASSIGNED"
  shows "feed chk name nodes v =
           Inr (if \<forall>y\<in>set (List.map_filter (\<lambda>r. r) rs). y = m_value v
                then v else set_inconsistent v)"
  using assms
proof (induction nodes rs rule: list_all2_induct)
  case Nil
  show ?case by (simp add: List.map_filter_simps)
next
  case (Cons n ns r rs)
  show ?case
  proof (cases r)
    case None
    with Cons show ?thesis
      by (simp add: guarded_no_reading List.map_filter_simps)
  next
    case (Some y)
    show ?thesis
    proof (cases "y = m_value v")
      case True
      with Cons Some show ?thesis
        by (simp add: guarded_reading List.map_filter_simps)
    next
      case False
      with Cons.hyps(1) Cons.prems Some show ?thesis
        by (simp add: guarded_reading List.map_filter_simps set_inconsistent_def
            is_inconsistent_def)
    qed
  qed
qed

lemma feed_from_initial:
  assumes "list_all2 (\<lambda>nodeh r. get_int_property chk nodeh name = Inr r) nodes rs"
    and "m_state v = INITIAL"
  shows "feed chk name nodes v =
           Inr (case List.map_filter (\<lambda>r. r) rs of
                  [] \<Rightarrow> v
                | x # xs \<Rightarrow>
                    if \<forall>y\<in>set xs. y = x
                    then v\<lparr>m_value := x, m_state := ASSIGNED\<rparr>
                    else v\<lparr>m_value := x, m_state := INCONSISTENT\<rparr>)"
  using assms
proof (induction nodes rs rule: list_all2_induct)
  case Nil
  show ?case by (simp add: List.map_filter_simps)
next
  case (Cons n ns r rs)
  show ?case
  proof (cases r)
    case None
    with Cons show ?thesis
      by (simp add: guarded_no_reading List.map_filter_simps)
  next
    case (Some x)
    let ?a = "v\<lparr>m_value := x, m_state := ASSIGNED\<rparr>"
    from Cons.hyps(1) Cons.prems Some
    have "visit_unless_inconsistent chk n name v = Inr ?a"
      by (simp add: guarded_reading)
    moreover from feed_from_assigned [OF Cons.hyps(2), of ?a]
    have "feed chk name ns ?a =
            Inr (if \<forall>y\<in>set (List.map_filter (\<lambda>r. r) rs). y = x
                 then ?a else set_inconsistent ?a)"
      by simp
    ultimately show ?thesis
      using Some by (simp add: List.map_filter_simps set_inconsistent_def)
  qed
qed

text \<open>
  C1. One tracker, fresh from its constructor, is fed the nodes of a walk, on which
  the reads of the property give \<open>rs\<close>: \<open>Some\<close> of the value where the read
  succeeds, \<open>None\<close> where it fails. The successful readings are the values in
  \<open>rs\<close>, in order; a failed read leaves the tracker as it is. With no successful
  reading the tracker stays \<^verbatim>\<open>INITIAL\<close>. Up to and including the first successful
  reading \<open>x\<close> it is \<^verbatim>\<open>ASSIGNED\<close> with \<open>x\<close>. If all the successful readings
  are equal it ends \<^verbatim>\<open>ASSIGNED\<close> with the value; if two of them differ it ends
  \<^verbatim>\<open>INCONSISTENT\<close>, and stays so whatever nodes follow.
\<close>

theorem tracker_readings:
  assumes "list_all2 (\<lambda>nodeh r. get_int_property chk nodeh name = Inr r) nodes rs"
  shows "(List.map_filter (\<lambda>r. r) rs = [] \<longrightarrow>
            feed chk name nodes (UniqueValueVisitor_new junk) = Inr (UniqueValueVisitor_new junk))
       \<and> (\<forall>x xs. List.map_filter (\<lambda>r. r) rs = x # xs \<longrightarrow>
            (\<forall>k. List.map_filter (\<lambda>r. r) (take k rs) = [x] \<longrightarrow>
                 feed chk name (take k nodes) (UniqueValueVisitor_new junk)
                   = Inr \<lparr>m_state = ASSIGNED, m_value = x\<rparr>)
          \<and> ((\<forall>y\<in>set xs. y = x) \<longrightarrow>
                 feed chk name nodes (UniqueValueVisitor_new junk)
                   = Inr \<lparr>m_state = ASSIGNED, m_value = x\<rparr>)
          \<and> ((\<exists>a\<in>set (x # xs). \<exists>b\<in>set (x # xs). a \<noteq> b) \<longrightarrow>
                 feed chk name nodes (UniqueValueVisitor_new junk)
                   = Inr \<lparr>m_state = INCONSISTENT, m_value = x\<rparr>
               \<and> (\<forall>later. feed chk name (nodes @ later) (UniqueValueVisitor_new junk)
                             = Inr \<lparr>m_state = INCONSISTENT, m_value = x\<rparr>)))"
proof -
  let ?new = "UniqueValueVisitor_new junk"
  have init: "m_state ?new = INITIAL"
    by (simp add: UniqueValueVisitor_new_def)
  note whole = feed_from_initial [OF assms init]
  have none: "feed chk name nodes ?new = Inr ?new" if "List.map_filter (\<lambda>r. r) rs = []"
    using whole that by simp
  have first: "feed chk name (take k nodes) ?new = Inr \<lparr>m_state = ASSIGNED, m_value = x\<rparr>"
    if "List.map_filter (\<lambda>r. r) (take k rs) = [x]" for k x
  proof -
    from assms
    have "list_all2 (\<lambda>nodeh r. get_int_property chk nodeh name = Inr r) (take k nodes) (take k rs)"
      by (rule list_all2_takeI)
    from feed_from_initial [OF this init] that show ?thesis
      by (simp add: UniqueValueVisitor_new_def)
  qed
  have eq: "feed chk name nodes ?new = Inr \<lparr>m_state = ASSIGNED, m_value = x\<rparr>"
    if "List.map_filter (\<lambda>r. r) rs = x # xs" and "\<forall>y\<in>set xs. y = x" for x xs
    using whole that by (simp add: UniqueValueVisitor_new_def)
  have ne: "feed chk name nodes ?new = Inr \<lparr>m_state = INCONSISTENT, m_value = x\<rparr>"
    if "List.map_filter (\<lambda>r. r) rs = x # xs"
      and "\<exists>a\<in>set (x # xs). \<exists>b\<in>set (x # xs). a \<noteq> b" for x xs
  proof -
    from that(2) have "\<not> (\<forall>y\<in>set xs. y = x)" by auto
    with whole that(1) show ?thesis by (simp add: UniqueValueVisitor_new_def)
  qed
  have sticky: "feed chk name (nodes @ later) ?new = Inr \<lparr>m_state = INCONSISTENT, m_value = x\<rparr>"
    if "List.map_filter (\<lambda>r. r) rs = x # xs"
      and "\<exists>a\<in>set (x # xs). \<exists>b\<in>set (x # xs). a \<noteq> b" for x xs later
    by (simp add: feed_append ne [OF that] is_inconsistent_def)
  from none first eq ne sticky show ?thesis by blast
qed

theorem tracker_readings_witness:
  "list_all2 (\<lambda>nodeh r. get_int_property debug_build nodeh ''l2-cache-line-size'' = Inr r)
     [sample_cpu 64 64, sample_cpu_without_l2 64, sample_cpu 64 32] [Some 64, None, Some 32]
   \<and> feed debug_build ''l2-cache-line-size'' (take 2 [sample_cpu 64 64, sample_cpu_without_l2 64,
        sample_cpu 64 32]) (UniqueValueVisitor_new 0) = Inr \<lparr>m_state = ASSIGNED, m_value = 64\<rparr>
   \<and> feed debug_build ''l2-cache-line-size''
        [sample_cpu 64 64, sample_cpu_without_l2 64, sample_cpu 64 32]
        (UniqueValueVisitor_new 0) = Inr \<lparr>m_state = INCONSISTENT, m_value = 64\<rparr>
   \<and> feed debug_build ''l2-cache-line-size''
        ([sample_cpu 64 64, sample_cpu_without_l2 64, sample_cpu 64 32] @ [sample_cpu 64 64])
        (UniqueValueVisitor_new 0) = Inr \<lparr>m_state = INCONSISTENT, m_value = 64\<rparr>"
proof -
  let ?nodes = "[sample_cpu 64 64, sample_cpu_without_l2 64, sample_cpu 64 32]"
  have h: "list_all2 (\<lambda>nodeh r. get_int_property debug_build nodeh ''l2-cache-line-size'' = Inr r)
     ?nodes [Some 64, None, Some 32]"
    by (simp add: get_int_property_def sample_cpu_def sample_cpu_without_l2_def int_prop_def)
  have r: "List.map_filter (\<lambda>r. r) [Some 64, None, Some (32 :: 32 word)] = 64 # [32]"
    by (simp add: List.map_filter_simps)
  have p: "List.map_filter (\<lambda>r. r) (take 2 [Some 64, None, Some (32 :: 32 word)]) = [64]"
    by (simp add: List.map_filter_simps)
  have d: "\<exists>a\<in>set (64 # [32 :: 32 word]). \<exists>b\<in>set (64 # [32]). a \<noteq> b"
    by (rule bexI [of _ 64], rule bexI [of _ 32]) simp_all
  note t = tracker_readings [OF h, of 0]
  from t r p
  have 1: "feed debug_build ''l2-cache-line-size'' (take 2 ?nodes) (UniqueValueVisitor_new 0)
             = Inr \<lparr>m_state = ASSIGNED, m_value = 64\<rparr>"
    by blast
  from t r d
  have 2: "feed debug_build ''l2-cache-line-size'' ?nodes (UniqueValueVisitor_new 0)
             = Inr \<lparr>m_state = INCONSISTENT, m_value = 64\<rparr>
      \<and> (\<forall>later. feed debug_build ''l2-cache-line-size'' (?nodes @ later)
            (UniqueValueVisitor_new 0) = Inr \<lparr>m_state = INCONSISTENT, m_value = 64\<rparr>)"
    by blast
  from h 1 2 show ?thesis by blast
qed

section \<open>The walk\<close>

subsection \<open>Budget and early end\<close>

lemma CPUVisitor_visit_rc:
  assumes "CPUVisitor_visit chk nodeh s = Inr (rc, s')"
  shows "(rc = PICL_WALK_CONTINUE \<longrightarrow>
            m_limit (cpu_visitor s') = m_limit (cpu_visitor s) - 1 \<and> 0 < m_limit (cpu_visitor s'))
       \<and> (is_inconsistent (l1_visitor (cpu_visitor s')) \<and> is_inconsistent (l2_visitor (cpu_visitor s'))
            \<longrightarrow> rc = PICL_WALK_TERMINATE)"
  using assms
  by (auto simp: CPUVisitor_visit_def and_then_def Let_def split: sum.splits prod.splits if_splits)

lemma walk_length:
  assumes "picl_walk_tree_by_class chk nodes s = Inr tr"
  shows "int (length tr) \<le> max 1 (m_limit (cpu_visitor s)) \<and> length tr \<le> length nodes"
  using assms
proof (induction nodes arbitrary: s tr)
  case Nil
  then show ?case by simp
next
  case (Cons n ns)
  from Cons.prems obtain rc s' where v: "CPUVisitor_visit chk n s = Inr (rc, s')"
    by (cases "CPUVisitor_visit chk n s") auto
  show ?case
  proof (cases rc)
    case PICL_WALK_TERMINATE
    with Cons.prems v show ?thesis by auto
  next
    case PICL_WALK_CONTINUE
    with Cons.prems v obtain tr' where w: "picl_walk_tree_by_class chk ns s' = Inr tr'"
      and tr: "tr = s' # tr'"
      by (cases "picl_walk_tree_by_class chk ns s'") auto
    from CPUVisitor_visit_rc [OF v] PICL_WALK_CONTINUE
    have "m_limit (cpu_visitor s') = m_limit (cpu_visitor s) - 1" and "0 < m_limit (cpu_visitor s')"
      by simp_all
    with Cons.IH [OF w] tr show ?thesis by auto
  qed
qed

lemma walk_stops_when_both_inconsistent:
  assumes "picl_walk_tree_by_class chk nodes s = Inr tr" and "i < length tr"
    and "is_inconsistent (l1_visitor (cpu_visitor (tr ! i)))"
    and "is_inconsistent (l2_visitor (cpu_visitor (tr ! i)))"
  shows "Suc i = length tr"
  using assms
proof (induction nodes arbitrary: s tr i)
  case Nil
  then show ?case by simp
next
  case (Cons n ns)
  from Cons.prems(1) obtain rc s' where v: "CPUVisitor_visit chk n s = Inr (rc, s')"
    by (cases "CPUVisitor_visit chk n s") auto
  show ?case
  proof (cases rc)
    case PICL_WALK_TERMINATE
    with Cons.prems v show ?thesis by auto
  next
    case PICL_WALK_CONTINUE
    with Cons.prems(1) v obtain tr' where w: "picl_walk_tree_by_class chk ns s' = Inr tr'"
      and tr: "tr = s' # tr'"
      by (cases "picl_walk_tree_by_class chk ns s'") auto
    show ?thesis
    proof (cases i)
      case 0
      with CPUVisitor_visit_rc [OF v] PICL_WALK_CONTINUE Cons.prems(3,4) tr show ?thesis by simp
    next
      case (Suc j)
      with Cons.IH [OF w, of j] Cons.prems(2,3,4) tr show ?thesis by simp
    qed
  qed
qed

text \<open>
  C3. The walk of the constructor calls the visitor at most as many times as its
  budget, which is 1 on a sun4v machine that is not Fujitsu and the processor count
  (a positive number) otherwise; and a call that leaves both trackers
  \<^verbatim>\<open>INCONSISTENT\<close> is the last call of the walk.
\<close>

theorem walk_within_budget:
  assumes "PICL_walk chk env name is_fujitsu is_sun4v = Inr tr" and "0 < processor_count env"
  shows "int (length tr) \<le> (if is_sun4v \<and> \<not> is_fujitsu then 1 else processor_count env)
       \<and> (\<forall>i<length tr.
            is_inconsistent (l1_visitor (cpu_visitor (tr ! i))) \<and>
            is_inconsistent (l2_visitor (cpu_visitor (tr ! i))) \<longrightarrow> Suc i = length tr)"
proof -
  from assms(1) have w: "picl_walk_tree_by_class chk
      (nodes_of_class env (if is_fujitsu then ''core'' else ''cpu''))
      (PICL_walk_start env name is_fujitsu is_sun4v) = Inr tr"
    by (simp add: PICL_walk_def)
  have "m_limit (cpu_visitor (PICL_walk_start env name is_fujitsu is_sun4v))
          = (if is_sun4v \<and> \<not> is_fujitsu then 1 else processor_count env)"
    by (simp add: PICL_walk_start_def CPUVisitor_new_def)
  with walk_length [OF w] assms(2)
  have "int (length tr) \<le> (if is_sun4v \<and> \<not> is_fujitsu then 1 else processor_count env)"
    by (auto split: if_splits)
  moreover have "\<forall>i<length tr.
            is_inconsistent (l1_visitor (cpu_visitor (tr ! i))) \<and>
            is_inconsistent (l2_visitor (cpu_visitor (tr ! i))) \<longrightarrow> Suc i = length tr"
    using walk_stops_when_both_inconsistent [OF w] by blast
  ultimately show ?thesis by blast
qed


theorem walk_within_budget_witness:
  "0 < processor_count (sample_picl_env [sample_cpu 64 64, sample_cpu 32 128, sample_cpu 64 64] 8)
   \<and> (\<exists>tr. PICL_walk debug_build
              (sample_picl_env [sample_cpu 64 64, sample_cpu 32 128, sample_cpu 64 64] 8)
              None False False = Inr tr
          \<and> int (length tr) \<le> 8
          \<and> length tr = 2
          \<and> is_inconsistent (l1_visitor (cpu_visitor (tr ! 1)))
          \<and> is_inconsistent (l2_visitor (cpu_visitor (tr ! 1))))"
proof -
  let ?env = "sample_picl_env [sample_cpu 64 64, sample_cpu 32 128, sample_cpu 64 64] 8"
  have p: "0 < processor_count ?env"
    by (simp add: sample_picl_env_def)
  have "\<exists>tr. PICL_walk debug_build ?env None False False = Inr tr
           \<and> length tr = 2
           \<and> is_inconsistent (l1_visitor (cpu_visitor (tr ! 1)))
           \<and> is_inconsistent (l2_visitor (cpu_visitor (tr ! 1)))"
    by (simp add: PICL_walk_def PICL_walk_start_def sample_picl_env_def sample_cpu_def
        int_prop_def CPUVisitor_new_def UniqueValueVisitor_new_def CPUVisitor_visit_def
        visit_l2_def visit_unless_inconsistent_def UniqueValueVisitor_visit_def
        get_int_property_def set_value_def UniqueValueVisitor_value_def is_inconsistent_def
        is_assigned_def set_inconsistent_def vm_assert_def debug_build_def Let_def)
  then obtain tr where w: "PICL_walk debug_build ?env None False False = Inr tr"
    and l: "length tr = 2"
    and i: "is_inconsistent (l1_visitor (cpu_visitor (tr ! 1)))"
           "is_inconsistent (l2_visitor (cpu_visitor (tr ! 1)))"
    by blast
  from walk_within_budget [OF w p] have "int (length tr) \<le> 8"
    by (simp add: sample_picl_env_def)
  with p w l i show ?thesis by blast
qed

subsection \<open>What one call does to each tracker\<close>

lemma visit_result:
  assumes "UniqueValueVisitor_visit chk n name v = Inr (ok, v')"
  shows "ok = (\<exists>x. get_int_property chk n name = Inr (Some x)) \<and> (\<not> ok \<longrightarrow> v' = v)"
  using assms
  by (auto simp: UniqueValueVisitor_visit_def and_then_def
      split: sum.splits option.splits if_splits)

lemma CPUVisitor_visit_l1:
  assumes "CPUVisitor_visit chk n s = Inr (rc, s')"
  shows "visit_unless_inconsistent chk n ''l1-dcache-line-size'' (l1_visitor (cpu_visitor s))
           = Inr (l1_visitor (cpu_visitor s'))"
  using assms
  by (auto simp: CPUVisitor_visit_def and_then_def Let_def split: sum.splits prod.splits if_splits)

lemma CPUVisitor_visit_l2:
  assumes "CPUVisitor_visit chk n s = Inr (rc, s')"
  shows "visit_l2 chk n (l2_data_cache_line_property_name s) (l2_visitor (cpu_visitor s))
           = Inr (l2_data_cache_line_property_name s', l2_visitor (cpu_visitor s'))"
  using assms
  by (auto simp: CPUVisitor_visit_def and_then_def Let_def split: sum.splits prod.splits if_splits)

lemma walk_feeds_l1:
  assumes "picl_walk_tree_by_class chk nodes s = Inr tr"
  shows "feed chk ''l1-dcache-line-size'' (take (length tr) nodes) (l1_visitor (cpu_visitor s))
           = Inr (l1_visitor (cpu_visitor (last (s # tr))))"
  using assms
proof (induction nodes arbitrary: s tr)
  case Nil
  then show ?case by simp
next
  case (Cons n ns)
  from Cons.prems obtain rc s' where v: "CPUVisitor_visit chk n s = Inr (rc, s')"
    by (cases "CPUVisitor_visit chk n s") auto
  note l1 = CPUVisitor_visit_l1 [OF v]
  show ?case
  proof (cases rc)
    case PICL_WALK_TERMINATE
    with Cons.prems v have "tr = [s']" by auto
    with l1 show ?thesis by simp
  next
    case PICL_WALK_CONTINUE
    with Cons.prems v obtain tr' where w: "picl_walk_tree_by_class chk ns s' = Inr tr'"
      and tr: "tr = s' # tr'"
      by (cases "picl_walk_tree_by_class chk ns s'") auto
    from Cons.IH [OF w] l1 tr show ?thesis by simp
  qed
qed

subsection \<open>The name of the L2 property\<close>

lemma visit_l2_named:
  assumes "visit_l2 chk n (Some nm) l2 = Inr (name', l2')"
  shows "name' = Some nm \<and> visit_unless_inconsistent chk n nm l2 = Inr l2'"
  using assms by (auto simp: visit_l2_def and_then_def split: sum.splits)

lemma visit_l2_first:
  assumes "visit_l2 chk n None l2 = Inr (name', l2')"
  shows "\<exists>nm ok. name' = Some nm
           \<and> nm = (if \<exists>x. get_int_property chk n ''l2-cache-line-size'' = Inr (Some x)
                   then ''l2-cache-line-size'' else ''l2-dcache-line-size'')
           \<and> UniqueValueVisitor_visit chk n nm l2 = Inr (ok, l2')"
proof -
  from assms obtain ok l2a where
    p: "UniqueValueVisitor_visit chk n ''l2-cache-line-size'' l2 = Inr (ok, l2a)"
    by (auto simp: visit_l2_def and_then_def split: sum.splits)
  note r = visit_result [OF p]
  show ?thesis
  proof (cases ok)
    case True
    with assms p r show ?thesis by (auto simp: visit_l2_def and_then_def split: sum.splits)
  next
    case False
    with r have same: "l2a = l2" by simp
    from assms p False same obtain ok' where
      "UniqueValueVisitor_visit chk n ''l2-dcache-line-size'' l2 = Inr (ok', l2')"
      and "name' = Some ''l2-dcache-line-size''"
      by (auto simp: visit_l2_def and_then_def split: sum.splits)
    with False r show ?thesis by auto
  qed
qed

lemma walk_named:
  assumes "picl_walk_tree_by_class chk nodes s = Inr tr"
    and "l2_data_cache_line_property_name s = Some nm"
  shows "(\<forall>s'\<in>set tr. l2_data_cache_line_property_name s' = Some nm)
       \<and> (\<forall>i<length tr. visit_unless_inconsistent chk (nodes ! i) nm
                            (l2_visitor (cpu_visitor ((s # tr) ! i)))
                          = Inr (l2_visitor (cpu_visitor (tr ! i))))"
  using assms
proof (induction nodes arbitrary: s tr)
  case Nil
  then show ?case by simp
next
  case (Cons n ns)
  from Cons.prems(1) obtain rc s' where v: "CPUVisitor_visit chk n s = Inr (rc, s')"
    by (cases "CPUVisitor_visit chk n s") auto
  from visit_l2_named CPUVisitor_visit_l2 [OF v] Cons.prems(2)
  have nm': "l2_data_cache_line_property_name s' = Some nm"
    and step: "visit_unless_inconsistent chk n nm (l2_visitor (cpu_visitor s))
                 = Inr (l2_visitor (cpu_visitor s'))"
    by auto
  show ?case
  proof (cases rc)
    case PICL_WALK_TERMINATE
    with Cons.prems(1) v have "tr = [s']" by auto
    with nm' step show ?thesis by simp
  next
    case PICL_WALK_CONTINUE
    with Cons.prems(1) v obtain tr' where w: "picl_walk_tree_by_class chk ns s' = Inr tr'"
      and tr: "tr = s' # tr'"
      by (cases "picl_walk_tree_by_class chk ns s'") auto
    note ih = Cons.IH [OF w nm']
    have "visit_unless_inconsistent chk ((n # ns) ! i) nm
            (l2_visitor (cpu_visitor ((s # tr) ! i)))
          = Inr (l2_visitor (cpu_visitor (tr ! i)))" if "i < length tr" for i
    proof (cases i)
      case 0
      with step tr show ?thesis by simp
    next
      case (Suc j)
      with that tr ih show ?thesis by simp
    qed
    with ih nm' tr show ?thesis by simp
  qed
qed

text \<open>
  C4. In a walk that begins with no name chosen, the name of the L2 property is
  chosen on the first node: the primary name if it can be read there, the fallback
  name otherwise, and the L2 tracker is fed on that node under the chosen name. After
  every later call the static still holds this name, and every later node is read
  under it, through the guarded call, whatever other properties the node has.
\<close>

theorem l2_property_name_memoized:
  assumes "picl_walk_tree_by_class chk (n # ns) s = Inr tr"
    and "l2_data_cache_line_property_name s = None"
  shows "\<exists>nm. nm = (if \<exists>x. get_int_property chk n ''l2-cache-line-size'' = Inr (Some x)
                    then ''l2-cache-line-size'' else ''l2-dcache-line-size'')
       \<and> tr \<noteq> []
       \<and> (\<exists>ok. UniqueValueVisitor_visit chk n nm (l2_visitor (cpu_visitor s))
                  = Inr (ok, l2_visitor (cpu_visitor (hd tr))))
       \<and> (\<forall>s'\<in>set tr. l2_data_cache_line_property_name s' = Some nm)
       \<and> (\<forall>i. Suc i < length tr \<longrightarrow>
             visit_unless_inconsistent chk (ns ! i) nm (l2_visitor (cpu_visitor (tr ! i)))
               = Inr (l2_visitor (cpu_visitor (tr ! Suc i))))"
proof -
  from assms(1) obtain rc s' where v: "CPUVisitor_visit chk n s = Inr (rc, s')"
    by (cases "CPUVisitor_visit chk n s") auto
  from CPUVisitor_visit_l2 [OF v] assms(2)
  have "visit_l2 chk n None (l2_visitor (cpu_visitor s))
          = Inr (l2_data_cache_line_property_name s', l2_visitor (cpu_visitor s'))"
    by simp
  from visit_l2_first [OF this]
  obtain nm ok where nm': "l2_data_cache_line_property_name s' = Some nm"
    and nm: "nm = (if \<exists>x. get_int_property chk n ''l2-cache-line-size'' = Inr (Some x)
                   then ''l2-cache-line-size'' else ''l2-dcache-line-size'')"
    and first: "UniqueValueVisitor_visit chk n nm (l2_visitor (cpu_visitor s))
                  = Inr (ok, l2_visitor (cpu_visitor s'))"
    by blast
  have hd: "tr \<noteq> [] \<and> hd tr = s'"
    and rest: "(\<forall>s'\<in>set tr. l2_data_cache_line_property_name s' = Some nm)
       \<and> (\<forall>i. Suc i < length tr \<longrightarrow>
             visit_unless_inconsistent chk (ns ! i) nm (l2_visitor (cpu_visitor (tr ! i)))
               = Inr (l2_visitor (cpu_visitor (tr ! Suc i))))"
  proof -
    show "tr \<noteq> [] \<and> hd tr = s'"
      using assms(1) v by (cases rc; cases "picl_walk_tree_by_class chk ns s'") auto
    show "(\<forall>s'\<in>set tr. l2_data_cache_line_property_name s' = Some nm)
       \<and> (\<forall>i. Suc i < length tr \<longrightarrow>
             visit_unless_inconsistent chk (ns ! i) nm (l2_visitor (cpu_visitor (tr ! i)))
               = Inr (l2_visitor (cpu_visitor (tr ! Suc i))))"
    proof (cases rc)
      case PICL_WALK_TERMINATE
      with assms(1) v have "tr = [s']" by auto
      with nm' show ?thesis by simp
    next
      case PICL_WALK_CONTINUE
      with assms(1) v obtain tr' where w: "picl_walk_tree_by_class chk ns s' = Inr tr'"
        and tr: "tr = s' # tr'"
        by (cases "picl_walk_tree_by_class chk ns s'") auto
      from walk_named [OF w nm'] tr nm' show ?thesis by simp
    qed
  qed
  from hd first have "\<exists>ok. UniqueValueVisitor_visit chk n nm (l2_visitor (cpu_visitor s))
                  = Inr (ok, l2_visitor (cpu_visitor (hd tr)))"
    by auto
  with nm hd rest show ?thesis by blast
qed

theorem l2_property_name_memoized_witness:
  "\<exists>tr. picl_walk_tree_by_class debug_build [sample_cpu_without_l2 64, sample_cpu 64 128]
           \<lparr>cpu_visitor = CPUVisitor_new 0 0 2, l2_data_cache_line_property_name = None\<rparr> = Inr tr
      \<and> length tr = 2
      \<and> (\<forall>s'\<in>set tr. l2_data_cache_line_property_name s' = Some ''l2-dcache-line-size'')
      \<and> get_int_property debug_build (sample_cpu 64 128) ''l2-cache-line-size'' = Inr (Some 128)
      \<and> m_state (l2_visitor (cpu_visitor (tr ! 1))) = INITIAL"
proof -
  let ?s = "\<lparr>cpu_visitor = CPUVisitor_new 0 0 2, l2_data_cache_line_property_name = None\<rparr>"
  have "\<exists>tr. picl_walk_tree_by_class debug_build [sample_cpu_without_l2 64, sample_cpu 64 128] ?s
              = Inr tr
           \<and> length tr = 2 \<and> m_state (l2_visitor (cpu_visitor (tr ! 1))) = INITIAL"
    by (simp add: sample_cpu_without_l2_def sample_cpu_def
        int_prop_def CPUVisitor_new_def UniqueValueVisitor_new_def CPUVisitor_visit_def
        visit_l2_def visit_unless_inconsistent_def UniqueValueVisitor_visit_def
        get_int_property_def set_value_def UniqueValueVisitor_value_def is_inconsistent_def
        is_assigned_def set_inconsistent_def vm_assert_def debug_build_def Let_def)
  then obtain tr where
    w: "picl_walk_tree_by_class debug_build [sample_cpu_without_l2 64, sample_cpu 64 128] ?s = Inr tr"
    and l: "length tr = 2" and i: "m_state (l2_visitor (cpu_visitor (tr ! 1))) = INITIAL"
    by blast
  have n: "l2_data_cache_line_property_name ?s = None" by simp
  have r: "get_int_property debug_build (sample_cpu 64 128) ''l2-cache-line-size'' = Inr (Some 128)"
    by (simp add: get_int_property_def sample_cpu_def int_prop_def)
  have "\<not> (\<exists>x. get_int_property debug_build (sample_cpu_without_l2 64) ''l2-cache-line-size''
                 = Inr (Some x))"
    by (simp add: get_int_property_def sample_cpu_without_l2_def)
  with l2_property_name_memoized [OF w n]
  have "\<forall>s'\<in>set tr. l2_data_cache_line_property_name s' = Some ''l2-dcache-line-size''"
    by simp
  with w l i r show ?thesis by blast
qed

section \<open>Which checks can fail in the cache probe\<close>

lemma get_int_property_abort:
  assumes "get_int_property chk n name = Inl e"
  shows "e = AssertionFailed ''Invalid property type''
       \<or> e = AssertionFailed ''Unexpected integer property size''"
  using assms
  by (auto simp: get_int_property_def vm_assert_def and_then_def split: option.splits if_splits)

lemma not_inconsistent_cases:
  "\<not> is_inconsistent v \<Longrightarrow> \<not> is_assigned v \<Longrightarrow> m_state v = INITIAL"
  by (cases "m_state v") (simp_all add: is_inconsistent_def is_assigned_def)

lemma visit_abort_kind:
  assumes "UniqueValueVisitor_visit chk n name v = Inl e" and "\<not> is_inconsistent v"
  shows "e = AssertionFailed ''Invalid property type''
       \<or> e = AssertionFailed ''Unexpected integer property size''"
proof (cases "get_int_property chk n name")
  case (Inl e')
  with assms have "e = e'" by (simp add: UniqueValueVisitor_visit_def)
  with get_int_property_abort [OF Inl] show ?thesis by simp
next
  case (Inr r)
  show ?thesis
  proof (cases r)
    case None
    with assms Inr show ?thesis by (simp add: UniqueValueVisitor_visit_def)
  next
    case (Some cur)
    show ?thesis
    proof (cases "is_assigned v")
      case True
      with assms Inr Some show ?thesis
        by (simp add: UniqueValueVisitor_visit_def UniqueValueVisitor_value_def is_assigned_def
            split: if_splits)
    next
      case False
      with assms(2) have "m_state v = INITIAL" by (simp add: not_inconsistent_cases)
      with assms Inr Some False show ?thesis
        by (simp add: UniqueValueVisitor_visit_def set_value_def)
    qed
  qed
qed

lemma guarded_abort_kind:
  assumes "visit_unless_inconsistent chk n name v = Inl e"
  shows "e = AssertionFailed ''Invalid property type''
       \<or> e = AssertionFailed ''Unexpected integer property size''"
proof (cases "is_inconsistent v")
  case True
  with assms show ?thesis by simp
next
  case False
  with assms have "UniqueValueVisitor_visit chk n name v = Inl e"
    by (cases "UniqueValueVisitor_visit chk n name v")
       (auto simp: visit_unless_inconsistent_def)
  from visit_abort_kind [OF this False] show ?thesis .
qed

lemma visit_l2_abort_kind:
  assumes "visit_l2 chk n name l2 = Inl e" and "name = None \<longrightarrow> \<not> is_inconsistent l2"
  shows "e = AssertionFailed ''Invalid property type''
       \<or> e = AssertionFailed ''Unexpected integer property size''"
proof (cases name)
  case (Some nm)
  with assms(1) have "visit_unless_inconsistent chk n nm l2 = Inl e"
    by (cases "visit_unless_inconsistent chk n nm l2") (auto simp: visit_l2_def)
  from guarded_abort_kind [OF this] show ?thesis .
next
  case None
  with assms(2) have ok: "\<not> is_inconsistent l2" by simp
  show ?thesis
  proof (cases "UniqueValueVisitor_visit chk n ''l2-cache-line-size'' l2")
    case (Inl e')
    with assms(1) None ok have "e = e'" by (simp add: visit_l2_def)
    with visit_abort_kind [OF Inl ok] show ?thesis by simp
  next
    case (Inr r)
    obtain found l2a where r: "r = (found, l2a)" by (cases r)
    show ?thesis
    proof (cases found)
      case True
      with assms(1) None ok Inr r show ?thesis by (simp add: visit_l2_def)
    next
      case False
      with visit_result [of chk n "''l2-cache-line-size''" l2 found l2a] Inr r
      have same: "l2a = l2" by simp
      with assms(1) None ok Inr r False
      have "UniqueValueVisitor_visit chk n ''l2-dcache-line-size'' l2 = Inl e"
        by (cases "UniqueValueVisitor_visit chk n ''l2-dcache-line-size'' l2")
           (auto simp: visit_l2_def)
      from visit_abort_kind [OF this ok] show ?thesis .
    qed
  qed
qed

lemma CPUVisitor_visit_abort_kind:
  assumes "CPUVisitor_visit chk n s = Inl e"
    and "l2_data_cache_line_property_name s = None
           \<longrightarrow> \<not> is_inconsistent (l2_visitor (cpu_visitor s))"
  shows "e = AssertionFailed ''Invalid property type''
       \<or> e = AssertionFailed ''Unexpected integer property size''"
proof (cases "visit_unless_inconsistent chk n ''l1-dcache-line-size'' (l1_visitor (cpu_visitor s))")
  case (Inl e')
  with assms(1) have "e = e'" by (simp add: CPUVisitor_visit_def)
  with guarded_abort_kind [OF Inl] show ?thesis by simp
next
  case (Inr l1)
  show ?thesis
  proof (cases "visit_l2 chk n (l2_data_cache_line_property_name s) (l2_visitor (cpu_visitor s))")
    case (Inl e')
    with assms(1) Inr have "e = e'" by (simp add: CPUVisitor_visit_def)
    with visit_l2_abort_kind [OF Inl assms(2)] show ?thesis by simp
  next
    case (Inr r)
    with assms(1) \<open>visit_unless_inconsistent chk n ''l1-dcache-line-size''
        (l1_visitor (cpu_visitor s)) = Inr l1\<close>
    show ?thesis
      by (cases r) (simp add: CPUVisitor_visit_def Let_def split: if_splits)
  qed
qed

lemma CPUVisitor_visit_name_set:
  assumes "CPUVisitor_visit chk n s = Inr (rc, s')"
  shows "l2_data_cache_line_property_name s' \<noteq> None"
proof (cases "l2_data_cache_line_property_name s")
  case None
  with CPUVisitor_visit_l2 [OF assms] visit_l2_first show ?thesis by fastforce
next
  case (Some nm)
  with CPUVisitor_visit_l2 [OF assms] visit_l2_named show ?thesis by fastforce
qed

lemma walk_abort_kind:
  assumes "picl_walk_tree_by_class chk nodes s = Inl e"
    and "l2_data_cache_line_property_name s = None
           \<longrightarrow> \<not> is_inconsistent (l2_visitor (cpu_visitor s))"
  shows "e = AssertionFailed ''Invalid property type''
       \<or> e = AssertionFailed ''Unexpected integer property size''"
  using assms
proof (induction nodes arbitrary: s)
  case Nil
  then show ?case by simp
next
  case (Cons n ns)
  show ?case
  proof (cases "CPUVisitor_visit chk n s")
    case (Inl e')
    with Cons.prems(1) have "e = e'" by simp
    with CPUVisitor_visit_abort_kind [OF Inl Cons.prems(2)] show ?thesis by simp
  next
    case (Inr r)
    obtain rc s' where r: "r = (rc, s')" by (cases r)
    from Inr r CPUVisitor_visit_name_set
    have named: "l2_data_cache_line_property_name s' \<noteq> None" by blast
    from Cons.prems(1) Inr r have "picl_walk_tree_by_class chk ns s' = Inl e"
      by (cases "picl_walk_tree_by_class chk ns s'") (auto split: if_splits)
    from Cons.IH [OF this] named show ?thesis by simp
  qed
qed

subsection \<open>The library and the constructor\<close>

lemma close_library_open:
  "m_dl_handle picl \<noteq> None \<Longrightarrow> close_library chk picl = Inr (picl\<lparr>m_dl_handle := None\<rparr>)"
  by (simp add: close_library_def)

lemma open_library_cases:
  "open_library chk env picl =
     (if dlopen_libpicl env = None then Inr (False, picl\<lparr>m_dl_handle := None\<rparr>)
      else if PICL_bind env ''picl_initialize'' \<and> PICL_bind env ''picl_shutdown'' \<and>
              PICL_bind env ''picl_get_root'' \<and> PICL_bind env ''picl_walk_tree_by_class'' \<and>
              PICL_bind env ''picl_get_prop_by_name'' \<and> PICL_bind env ''picl_get_propval'' \<and>
              PICL_bind env ''picl_get_propinfo''
      then Inr (True, picl\<lparr>m_dl_handle := dlopen_libpicl env\<rparr>)
      else if chk ''unexpected PICL API change''
      then Inl (AssertionFailed ''unexpected PICL API change'')
      else Inr (False, picl\<lparr>m_dl_handle := None\<rparr>))"
  by (auto simp: open_library_def bind_library_functions_def close_library_def Let_def
      vm_assert_def)

lemma value_if_assigned_returns:
  "value_if_assigned chk v field = Inr (if is_assigned v then m_value v else field)"
  by (simp add: value_if_assigned_def UniqueValueVisitor_value_def is_assigned_def)

lemma PICL_walk_abort_kind:
  assumes "PICL_walk chk env name is_fujitsu is_sun4v = Inl e"
  shows "e = AssertionFailed ''Invalid property type''
       \<or> e = AssertionFailed ''Unexpected integer property size''"
proof -
  have "\<not> is_inconsistent (l2_visitor (cpu_visitor (PICL_walk_start env name is_fujitsu is_sun4v)))"
    by (simp add: PICL_walk_start_def CPUVisitor_new_def UniqueValueVisitor_new_def
        is_inconsistent_def)
  with walk_abort_kind assms show ?thesis
    unfolding PICL_walk_def by blast
qed

lemma PICL_new_abort_kind:
  assumes "PICL_new chk env name is_fujitsu is_sun4v = Inl e"
  shows "e = AssertionFailed ''unexpected PICL API change''
       \<or> e = AssertionFailed ''Invalid property type''
       \<or> e = AssertionFailed ''Unexpected integer property size''"
proof (cases "PICL_walk chk env name is_fujitsu is_sun4v")
  case (Inl e')
  from PICL_walk_abort_kind [OF Inl] assms Inl show ?thesis
    by (auto simp: PICL_new_def open_library_cases close_library_open split: if_splits)
next
  case (Inr tr)
  with assms show ?thesis
    by (auto simp: PICL_new_def open_library_cases value_if_assigned_returns
        close_library_open Let_def split: if_splits)
qed


section \<open>Feature bits\<close>

subsection \<open>Bits are only added\<close>

lemma or_keeps: "(a :: 32 word) AND (a OR m) = a"
  by (rule bit_eqI) (auto simp: bit_and_iff bit_or_iff)

lemma keeps_trans:
  assumes "(a :: 32 word) AND b = a" and "b AND c = b"
  shows "a AND c = a"
proof -
  have "a AND c = (a AND b) AND c" using assms(1) by simp
  also have "\<dots> = a AND (b AND c)" by (simp add: and.assoc)
  also have "\<dots> = a" using assms by simp
  finally show ?thesis .
qed

lemma keeps_or: "(a :: 32 word) AND f = a \<Longrightarrow> a AND (f OR m) = a"
  using keeps_trans [OF _ or_keeps] by blast

lemma set_if_keeps: "a AND f = a \<Longrightarrow> a AND set_if c m f = a"
  by (simp add: set_if_def keeps_or)

lemma getisax_features_keeps: "a AND getisax_features M AV avn av av2 a = a"
  by (simp add: getisax_features_def Let_def set_if_keeps)

lemma isalist_features_keeps: "a AND isalist_features M buf a = a"
  by (simp add: isalist_features_def Let_def keeps_or split: option.splits)

lemma do_sysinfo_keeps:
  assumes "do_sysinfo env si str f m = Inr r" and "a AND f = a"
  shows "a AND r = a"
  using assms
  by (auto simp: do_sysinfo_def Let_def vm_guarantee_def keeps_or split: if_splits)

lemma isa_features_keeps:
  assumes "isa_features chk M AV env a = Inr r"
  shows "a AND r = a"
proof (cases "supports_getisax env")
  case False
  with assms show ?thesis
    by (auto simp: isa_features_def Let_def isalist_features_keeps split: if_splits)
next
  case True
  with assms obtain f1 f2 where
    s1: "do_sysinfo env SI_ARCHITECTURE_32 ''sparc'' a (M v8_instructions_m) = Inr f1"
    and s2: "do_sysinfo env SI_ARCHITECTURE_64 ''sparcv9'' f1 (M generic_v9_m) = Inr f2"
    and r: "r = getisax_features M AV (getisax_avn env) (getisax_avs0 env) (getisax_avs1 env) f2"
    by (auto simp: isa_features_def and_then_def vm_assert_def split: sum.splits if_splits)
  from do_sysinfo_keeps [OF s1] have "a AND f1 = a" by simp
  from do_sysinfo_keeps [OF s2 this] have "a AND f2 = a" .
  from keeps_trans [OF this getisax_features_keeps] r show ?thesis by simp
qed

lemma match_implementation_keeps: "a AND fst (match_implementation M impl a) = a"
  by (simp add: match_implementation_def Let_def keeps_or)

lemma kstat_scan_keeps: "a AND fst (kstat_scan M knm a impl) = a"
  by (induction knm) (simp_all add: match_implementation_keeps)

lemma kstat_features_keeps:
  assumes "kstat_features chk M env a = Inr r"
  shows "a AND r = a"
proof -
  from assms have "r = a \<or> (\<exists>knm. r = fst (kstat_scan M knm a ''UNKNOWN''))"
    by (auto simp: kstat_features_def and_then_def vm_assert_def
        split: option.splits if_splits prod.splits)
       (metis fst_conv)+
  with kstat_scan_keeps show ?thesis by auto
qed

lemma detect_features_keeps:
  assumes "detect_features chk M AV env a = Inr r"
  shows "a AND r = a"
proof -
  from assms obtain f1 f2 where
    s1: "isa_features chk M AV env a = Inr f1"
    and s2: "do_sysinfo env SI_MACHINE ''sun4v'' f1 (M sun4v_m) = Inr f2"
    and s3: "kstat_features chk M env f2 = Inr r"
    by (auto simp: detect_features_def and_then_def split: sum.splits)
  from do_sysinfo_keeps [OF s2 isa_features_keeps [OF s1]] have "a AND f2 = a" .
  from keeps_trans [OF this kstat_features_keeps [OF s3]] show ?thesis .
qed

lemma platform_features_parts:
  assumes "platform_features chk M AV env name vm a = Inr (r, vm', name')"
  shows "\<exists>picl. detect_features chk M AV env a = Inr r
           \<and> PICL_new chk (picl_lib env) name (r AND M sparc64_family_m \<noteq> 0)
                (r AND M sun4v_m \<noteq> 0) = Inr (picl, name')
           \<and> vm' = vm\<lparr>VM_L2_data_cache_line_size := m_L2_data_cache_line_size picl\<rparr>"
  using assms
  by (auto simp: platform_features_def and_then_def split: sum.splits prod.splits)

text \<open>
  C2. Whatever the sources answer, the mask that \<^verbatim>\<open>platform_features\<close> returns
  holds every bit of the mask it was given.
\<close>

theorem platform_features_monotonic:
  assumes "platform_features chk M AV env name vm features = Inr (r, vm', name')"
  shows "features AND r = features \<and> (\<forall>n. bit features n \<longrightarrow> bit r n)"
proof -
  from platform_features_parts [OF assms] have "detect_features chk M AV env features = Inr r"
    by blast
  from detect_features_keeps [OF this] have k: "features AND r = features" .
  have "bit r n" if "bit features n" for n
  proof -
    from that k have "bit (features AND r) n" by simp
    then show ?thesis by (simp add: bit_and_iff)
  qed
  with k show ?thesis by blast
qed

theorem platform_features_monotonic_witness:
  "platform_features debug_build sample_M solaris_AV
     (sample_os_env True 0x63 ''sparcv9+vis2'' ''sun4v'' ''SPARC-T4''
        (sample_picl_env [sample_cpu 64 64, sample_cpu 64 128] 2))
     None \<lparr>VM_L2_data_cache_line_size = 0\<rparr> 0x800000
     = Inr (0x8101EF, \<lparr>VM_L2_data_cache_line_size = 64\<rparr>, Some ''l2-cache-line-size'')
   \<and> (0x800000 :: 32 word) AND 0x8101EF = 0x800000"
proof -
  have e: "platform_features debug_build sample_M solaris_AV
     (sample_os_env True 0x63 ''sparcv9+vis2'' ''sun4v'' ''SPARC-T4''
        (sample_picl_env [sample_cpu 64 64, sample_cpu 64 128] 2))
     None \<lparr>VM_L2_data_cache_line_size = 0\<rparr> 0x800000
     = Inr (0x8101EF, \<lparr>VM_L2_data_cache_line_size = 64\<rparr>, Some ''l2-cache-line-size'')"
    by code_simp
  from platform_features_monotonic [OF e] e show ?thesis by blast
qed

subsection \<open>The implementation family\<close>

lemma strstr_Some_iff: "strstr h needle \<noteq> None \<longleftrightarrow> (\<exists>p s. h = p @ needle @ s)"
proof (induction h)
  case Nil
  show ?case by auto
next
  case (Cons c cs)
  show ?case
  proof (cases "take (length needle) (c # cs) = needle")
    case True
    then have "c # cs = [] @ needle @ drop (length needle) (c # cs)"
      by (metis append_Nil append_take_drop_id)
    with True show ?thesis by (simp del: append_Nil) blast
  next
    case False
    have "(\<exists>p s. c # cs = p @ needle @ s) \<longleftrightarrow> (\<exists>p s. cs = p @ needle @ s)"
    proof
      assume "\<exists>p s. c # cs = p @ needle @ s"
      then obtain p s where ps: "c # cs = p @ needle @ s" by blast
      show "\<exists>p s. cs = p @ needle @ s"
      proof (cases p)
        case Nil
        with ps have "take (length needle) (c # cs) = needle" by simp
        with False show ?thesis by simp
      next
        case (Cons d p')
        with ps have "cs = p' @ needle @ s" by simp
        then show ?thesis by blast
      qed
    next
      assume "\<exists>p s. cs = p @ needle @ s"
      then obtain p s where "cs = p @ needle @ s" by blast
      then have "c # cs = (c # p) @ needle @ s" by simp
      then show "\<exists>p s. c # cs = p @ needle @ s" by blast
    qed
    with False Cons.IH show ?thesis by simp
  qed
qed

lemma strstr_longer_needle:
  assumes "strstr h (a @ b) \<noteq> None"
  shows "strstr h a \<noteq> None"
proof -
  from assms obtain p s where "h = p @ (a @ b) @ s"
    unfolding strstr_Some_iff by blast
  then have "h = p @ a @ (b @ s)" by simp
  then show ?thesis unfolding strstr_Some_iff by blast
qed

lemma or_has: "(m :: 32 word) AND (f OR m) = m"
  by (rule bit_eqI) (auto simp: bit_and_iff bit_or_iff)

lemma or_has2: "(m :: 32 word) AND (f OR (m OR k)) = m" "(k :: 32 word) AND (f OR (m OR k)) = k"
  by (rule bit_eqI, auto simp: bit_and_iff bit_or_iff)+

lemma or_has3: "(m :: 32 word) AND ((f OR m) OR k) = m"
  by (rule bit_eqI) (auto simp: bit_and_iff bit_or_iff)

text \<open>
  C6, as the code has it. The markers are tried in the order \<^verbatim>\<open>SPARC64\<close>,
  \<^verbatim>\<open>SPARC-M\<close>, \<^verbatim>\<open>SPARC-T\<close>, and the first that occurs decides. A string with
  \<^verbatim>\<open>SPARC-M\<close> and without \<^verbatim>\<open>SPARC64\<close> gets the M-family and the T-family bit; a
  string with \<^verbatim>\<open>SPARC-T1\<close> and with neither \<^verbatim>\<open>SPARC64\<close> nor \<^verbatim>\<open>SPARC-M\<close> gets
  the T-family and the T1-model bit.
\<close>

theorem family_bits:
  "(strstr (map toupper implementation) ''SPARC64'' = None
    \<and> strstr (map toupper implementation) ''SPARC-M'' \<noteq> None
    \<longrightarrow> fst (match_implementation M implementation features)
          = features OR (M M_family_m OR M T_family_m)
        \<and> M M_family_m AND fst (match_implementation M implementation features) = M M_family_m
        \<and> M T_family_m AND fst (match_implementation M implementation features) = M T_family_m)
   \<and> (strstr (map toupper implementation) ''SPARC64'' = None
    \<and> strstr (map toupper implementation) ''SPARC-M'' = None
    \<and> strstr (map toupper implementation) ''SPARC-T1'' \<noteq> None
    \<longrightarrow> fst (match_implementation M implementation features)
          = (features OR M T_family_m) OR M T1_model_m
        \<and> M T_family_m AND fst (match_implementation M implementation features) = M T_family_m
        \<and> M T1_model_m AND fst (match_implementation M implementation features) = M T1_model_m)"
proof -
  have t: "strstr (map toupper implementation) ''SPARC-T'' \<noteq> None"
    if "strstr (map toupper implementation) ''SPARC-T1'' \<noteq> None"
    using strstr_longer_needle [of "map toupper implementation" "''SPARC-T''" "''1''"] that
    by simp
  show ?thesis
    using t
    by (auto simp: match_implementation_def Let_def or_has or_has2 or_has3)
qed

theorem family_bits_witness:
  "fst (match_implementation sample_M ''SPARC-M7'' 0) = 0x18000
   \<and> fst (match_implementation sample_M ''UltraSPARC-T1'' 0) = 0x30000"
proof -
  have m: "strstr (map toupper ''SPARC-M7'') ''SPARC64'' = None
         \<and> strstr (map toupper ''SPARC-M7'') ''SPARC-M'' \<noteq> None"
    by code_simp
  have t: "strstr (map toupper ''UltraSPARC-T1'') ''SPARC64'' = None
         \<and> strstr (map toupper ''UltraSPARC-T1'') ''SPARC-M'' = None
         \<and> strstr (map toupper ''UltraSPARC-T1'') ''SPARC-T1'' \<noteq> None"
    by code_simp
  from family_bits [where implementation = "''SPARC-M7''" and M = sample_M and features = 0] m
  have "fst (match_implementation sample_M ''SPARC-M7'' 0) = 0 OR (sample_M M_family_m OR sample_M T_family_m)"
    by blast
  moreover from family_bits [where implementation = "''UltraSPARC-T1''" and M = sample_M
      and features = 0] t
  have "fst (match_implementation sample_M ''UltraSPARC-T1'' 0)
          = (0 OR sample_M T_family_m) OR sample_M T1_model_m"
    by blast
  ultimately show ?thesis by simp
qed

text \<open>
  C6, as the claim has it, fails on a string that holds \<^verbatim>\<open>SPARC-T1\<close> after
  \<^verbatim>\<open>SPARC64\<close>: the first marker decides, and neither the T-family nor the T1-model
  bit is set.
\<close>

theorem family_bits_counterexample:
  "strstr (map toupper ''SPARC64 (SPARC-T1 mode)'') ''SPARC-T1'' \<noteq> None
   \<and> fst (match_implementation sample_M ''SPARC64 (SPARC-T1 mode)'' 0) = 0x4000
   \<and> sample_M T_family_m AND 0x4000 = 0
   \<and> sample_M T1_model_m AND 0x4000 = 0
   \<and> kstat_features debug_build sample_M
        (sample_os_env True 0 [] ''sun4u'' ''SPARC64 (SPARC-T1 mode)'' sample_picl_env_absent) 0
      = Inr 0x4000"
  by code_simp

subsection \<open>The capability words\<close>

lemma do_sysinfo_cases:
  "do_sysinfo env si str features flag =
     (if si_needed (sysinfo env si) = - 1 then Inl (GuaranteeFailed ''must be supported'')
      else Inr (set_if (si_malloc (sysinfo env si)
                        \<and> si_written (sysinfo env si) = si_needed (sysinfo env si)
                        \<and> si_buf (sysinfo env si) = str) flag features))"
  by (simp add: do_sysinfo_def Let_def vm_guarantee_def set_if_def)

lemma capability_word_four:
  assumes "av AND AV AV_SPARC_MUL32 \<noteq> 0" and "av AND AV AV_SPARC_DIV32 \<noteq> 0"
    and "av AND AV AV_SPARC_VIS \<noteq> 0" and "av AND AV AV_SPARC_VIS2 \<noteq> 0"
    and "av AND AV AV_SPARC_FSMULD = 0" and "av AND AV AV_SPARC_V8PLUS = 0"
    and "av AND AV AV_SPARC_POPC = 0" and "av AND AV_SPARC_ASI_BLK_INIT = 0"
    and "av AND AV_SPARC_FMAF = 0" and "av AND AV_SPARC_FMAU = 0"
    and "av AND AV_SPARC_VIS3 = 0" and "av AND AV_SPARC_CBCOND = 0"
    and "av AND AV_SPARC_AES = 0" and "av AND AV_SPARC_SHA1 = 0"
    and "av AND AV_SPARC_SHA256 = 0" and "av AND AV_SPARC_SHA512 = 0"
    and "1 < avn \<longrightarrow> av2 AND AV2_SPARC_SPARC5 = 0"
  shows "getisax_features M AV avn av av2 features =
           (((features OR M hardware_mul32_m) OR M hardware_div32_m)
              OR M vis1_instructions_m) OR M vis2_instructions_m"
  using assms by (simp add: getisax_features_def Let_def set_if_def)

text \<open>
  C7, as the code has it. When \<^verbatim>\<open>getisax\<close> is supported and its word has the
  mul32, div32, VIS and VIS2 bits and none of the other bits that are tested, the
  capability words add exactly the four feature bits. The mask of this branch is the
  baseline, then \<^verbatim>\<open>v8_instructions_m\<close> if \<^verbatim>\<open>SI_ARCHITECTURE_32\<close> answers
  \<^verbatim>\<open>"sparc"\<close>, then \<^verbatim>\<open>generic_v9_m\<close> if \<^verbatim>\<open>SI_ARCHITECTURE_64\<close> answers
  \<^verbatim>\<open>"sparcv9"\<close>, then the four bits.
\<close>

theorem getisax_four_bits_added:
  assumes "supports_getisax env"
    and "getisax_avs0 env AND AV AV_SPARC_MUL32 \<noteq> 0"
    and "getisax_avs0 env AND AV AV_SPARC_DIV32 \<noteq> 0"
    and "getisax_avs0 env AND AV AV_SPARC_VIS \<noteq> 0"
    and "getisax_avs0 env AND AV AV_SPARC_VIS2 \<noteq> 0"
    and "getisax_avs0 env AND AV AV_SPARC_FSMULD = 0"
    and "getisax_avs0 env AND AV AV_SPARC_V8PLUS = 0"
    and "getisax_avs0 env AND AV AV_SPARC_POPC = 0"
    and "getisax_avs0 env AND AV_SPARC_ASI_BLK_INIT = 0"
    and "getisax_avs0 env AND AV_SPARC_FMAF = 0"
    and "getisax_avs0 env AND AV_SPARC_FMAU = 0"
    and "getisax_avs0 env AND AV_SPARC_VIS3 = 0"
    and "getisax_avs0 env AND AV_SPARC_CBCOND = 0"
    and "getisax_avs0 env AND AV_SPARC_AES = 0"
    and "getisax_avs0 env AND AV_SPARC_SHA1 = 0"
    and "getisax_avs0 env AND AV_SPARC_SHA256 = 0"
    and "getisax_avs0 env AND AV_SPARC_SHA512 = 0"
    and "1 < getisax_avn env \<longrightarrow> getisax_avs1 env AND AV2_SPARC_SPARC5 = 0"
    and "isa_features chk M AV env features = Inr r"
  shows "getisax_features M AV (getisax_avn env) (getisax_avs0 env) (getisax_avs1 env) features
           = (((features OR M hardware_mul32_m) OR M hardware_div32_m)
                OR M vis1_instructions_m) OR M vis2_instructions_m
       \<and> r = ((((set_if (si_malloc (sysinfo env SI_ARCHITECTURE_64)
                         \<and> si_written (sysinfo env SI_ARCHITECTURE_64)
                             = si_needed (sysinfo env SI_ARCHITECTURE_64)
                         \<and> si_buf (sysinfo env SI_ARCHITECTURE_64) = ''sparcv9'')
                    (M generic_v9_m)
                  (set_if (si_malloc (sysinfo env SI_ARCHITECTURE_32)
                           \<and> si_written (sysinfo env SI_ARCHITECTURE_32)
                               = si_needed (sysinfo env SI_ARCHITECTURE_32)
                           \<and> si_buf (sysinfo env SI_ARCHITECTURE_32) = ''sparc'')
                     (M v8_instructions_m) features))
                OR M hardware_mul32_m) OR M hardware_div32_m)
                OR M vis1_instructions_m) OR M vis2_instructions_m"
proof -
  note four = capability_word_four [OF assms(2-18)]
  from assms(1,19) have "r = getisax_features M AV (getisax_avn env) (getisax_avs0 env)
      (getisax_avs1 env)
      (set_if (si_malloc (sysinfo env SI_ARCHITECTURE_64)
                         \<and> si_written (sysinfo env SI_ARCHITECTURE_64)
                             = si_needed (sysinfo env SI_ARCHITECTURE_64)
                         \<and> si_buf (sysinfo env SI_ARCHITECTURE_64) = ''sparcv9'')
                    (M generic_v9_m)
                  (set_if (si_malloc (sysinfo env SI_ARCHITECTURE_32)
                           \<and> si_written (sysinfo env SI_ARCHITECTURE_32)
                               = si_needed (sysinfo env SI_ARCHITECTURE_32)
                           \<and> si_buf (sysinfo env SI_ARCHITECTURE_32) = ''sparc'')
                     (M v8_instructions_m) features))"
    by (simp add: isa_features_def do_sysinfo_cases vm_assert_def split: if_splits)
  with four show ?thesis by simp
qed

theorem getisax_four_bits_added_witness:
  "isa_features debug_build sample_M solaris_AV
     (sample_os_env True 0x63 [] ''sun4u'' ''UltraSPARC-IIIi'' sample_picl_env_absent) 0x800000
     = Inr 0x8000EF
   \<and> getisax_features sample_M solaris_AV 1 0x63 0 0x800000 = 0x8000C6"
proof -
  let ?env = "sample_os_env True 0x63 [] ''sun4u'' ''UltraSPARC-IIIi'' sample_picl_env_absent"
  have e: "isa_features debug_build sample_M solaris_AV ?env 0x800000 = Inr 0x8000EF"
    by code_simp
  have h: "supports_getisax ?env"
    "getisax_avs0 ?env AND solaris_AV AV_SPARC_MUL32 \<noteq> 0"
    "getisax_avs0 ?env AND solaris_AV AV_SPARC_DIV32 \<noteq> 0"
    "getisax_avs0 ?env AND solaris_AV AV_SPARC_VIS \<noteq> 0"
    "getisax_avs0 ?env AND solaris_AV AV_SPARC_VIS2 \<noteq> 0"
    "getisax_avs0 ?env AND solaris_AV AV_SPARC_FSMULD = 0"
    "getisax_avs0 ?env AND solaris_AV AV_SPARC_V8PLUS = 0"
    "getisax_avs0 ?env AND solaris_AV AV_SPARC_POPC = 0"
    "getisax_avs0 ?env AND AV_SPARC_ASI_BLK_INIT = 0"
    "getisax_avs0 ?env AND AV_SPARC_FMAF = 0"
    "getisax_avs0 ?env AND AV_SPARC_FMAU = 0"
    "getisax_avs0 ?env AND AV_SPARC_VIS3 = 0"
    "getisax_avs0 ?env AND AV_SPARC_CBCOND = 0"
    "getisax_avs0 ?env AND AV_SPARC_AES = 0"
    "getisax_avs0 ?env AND AV_SPARC_SHA1 = 0"
    "getisax_avs0 ?env AND AV_SPARC_SHA256 = 0"
    "getisax_avs0 ?env AND AV_SPARC_SHA512 = 0"
    "1 < getisax_avn ?env \<longrightarrow> getisax_avs1 ?env AND AV2_SPARC_SPARC5 = 0"
    by code_simp+
  have v: "getisax_avn ?env = 1" "getisax_avs0 ?env = 0x63" "getisax_avs1 ?env = 0"
    by (simp_all add: sample_os_env_def)
  have c: "(((0x800000 OR sample_M hardware_mul32_m) OR sample_M hardware_div32_m)
             OR sample_M vis1_instructions_m) OR sample_M vis2_instructions_m = 0x8000C6"
    by simp
  from getisax_four_bits_added [OF h e]
  have "getisax_features sample_M solaris_AV (getisax_avn ?env) (getisax_avs0 ?env)
          (getisax_avs1 ?env) 0x800000
        = (((0x800000 OR sample_M hardware_mul32_m) OR sample_M hardware_div32_m)
             OR sample_M vis1_instructions_m) OR sample_M vis2_instructions_m"
    by blast
  with v c e show ?thesis by simp
qed

text \<open>
  C7, as the claim has it, fails on a machine whose \<^verbatim>\<open>getisax\<close> word is exactly
  the four bits and whose 32-bit architecture is \<^verbatim>\<open>"sparc"\<close>: with the baseline 0
  the mask returned is not the four bits alone, it also holds the v8 bit and the bits
  of \<^verbatim>\<open>generic_v9_m\<close>.
\<close>

theorem getisax_four_bits_counterexample:
  "getisax_avs0 (sample_os_env True 0x63 [] ''sun4u'' ''UltraSPARC-IIIi'' sample_picl_env_absent)
     = ((solaris_AV AV_SPARC_MUL32 OR solaris_AV AV_SPARC_DIV32)
          OR solaris_AV AV_SPARC_VIS) OR solaris_AV AV_SPARC_VIS2
   \<and> platform_features debug_build sample_M solaris_AV
        (sample_os_env True 0x63 [] ''sun4u'' ''UltraSPARC-IIIi'' sample_picl_env_absent)
        None \<lparr>VM_L2_data_cache_line_size = 0\<rparr> 0
      = Inr (0xEF, \<lparr>VM_L2_data_cache_line_size = 0\<rparr>, None)
   \<and> (((0 OR sample_M hardware_mul32_m) OR sample_M hardware_div32_m)
         OR sample_M vis1_instructions_m) OR sample_M vis2_instructions_m = 0xC6
   \<and> (0xEF :: 32 word) \<noteq> 0xC6"
  by code_simp

subsection \<open>The legacy list\<close>

text \<open>
  C8. When \<^verbatim>\<open>getisax\<close> is not supported and the text of \<^verbatim>\<open>SI_ISALIST\<close> is
  \<^verbatim>\<open>"sparc8"\<close>, this source adds \<^verbatim>\<open>v8_instructions_m\<close> to the mask and nothing
  else: no mul32, div32 or v9 bit.
\<close>

theorem legacy_sparc8:
  assumes "\<not> supports_getisax env"
    and "si_malloc (sysinfo env SI_ISALIST)"
    and "si_written (sysinfo env SI_ISALIST) = si_needed (sysinfo env SI_ISALIST)"
    and "si_buf (sysinfo env SI_ISALIST) = ''sparc8''"
  shows "isa_features chk M AV env features = Inr (features OR M v8_instructions_m)"
  using assms
  by (simp add: isa_features_def Let_def isalist_features_def char_at_def)

theorem legacy_sparc8_witness:
  "isa_features debug_build sample_M solaris_AV
     (sample_os_env False 0 ''sparc8'' ''sun4m'' ''SPARC'' sample_picl_env_absent) 0 = Inr 1
   \<and> sample_M v8_instructions_m = 1
   \<and> sample_M hardware_mul32_m AND 1 = 0
   \<and> sample_M hardware_div32_m AND 1 = 0
   \<and> sample_M v9_instructions_m AND 1 = 0"
proof -
  let ?env = "sample_os_env False 0 ''sparc8'' ''sun4m'' ''SPARC'' sample_picl_env_absent"
  have h: "\<not> supports_getisax ?env" "si_malloc (sysinfo ?env SI_ISALIST)"
    "si_written (sysinfo ?env SI_ISALIST) = si_needed (sysinfo ?env SI_ISALIST)"
    "si_buf (sysinfo ?env SI_ISALIST) = ''sparc8''"
    by (simp_all add: sample_os_env_def sample_sysinfo_def)
  from legacy_sparc8 [OF h, of debug_build sample_M solaris_AV 0] show ?thesis by simp
qed

section \<open>The cache probe inside platform_features\<close>

lemma PICL_new_unavailable:
  assumes "dlopen_libpicl penv = None
         \<or> ((\<exists>nm\<in>set [''picl_initialize'', ''picl_shutdown'', ''picl_get_root'',
                          ''picl_walk_tree_by_class'', ''picl_get_prop_by_name'',
                          ''picl_get_propval'', ''picl_get_propinfo'']. dlsym penv nm = None)
             \<and> \<not> chk ''unexpected PICL API change'')"
  shows "PICL_new chk penv name is_fujitsu is_sun4v
           = Inr (\<lparr>m_L1_data_cache_line_size = 0, m_L2_data_cache_line_size = 0,
                    m_dl_handle = None\<rparr>, name)"
  using assms
  by (auto simp: PICL_new_def open_library_cases PICL_bind_def)

text \<open>
  C5, as the code has it. If \<^verbatim>\<open>dlopen\<close> fails, or if it succeeds, one of the seven
  names is not found and the assertion \<^verbatim>\<open>"unexpected PICL API change"\<close> is not
  compiled in, the constructor returns with both sizes 0 and the library closed, and
  \<^verbatim>\<open>platform_features\<close> returns the mask of the other sources and stores 0.
\<close>

theorem library_unavailable:
  assumes "dlopen_libpicl (picl_lib env) = None
         \<or> ((\<exists>nm\<in>set [''picl_initialize'', ''picl_shutdown'', ''picl_get_root'',
                          ''picl_walk_tree_by_class'', ''picl_get_prop_by_name'',
                          ''picl_get_propval'', ''picl_get_propinfo''].
                 dlsym (picl_lib env) nm = None)
             \<and> \<not> chk ''unexpected PICL API change'')"
  shows "PICL_new chk (picl_lib env) name is_fujitsu is_sun4v
           = Inr (\<lparr>m_L1_data_cache_line_size = 0, m_L2_data_cache_line_size = 0,
                    m_dl_handle = None\<rparr>, name)
       \<and> platform_features chk M AV env name vm features
           = and_then (detect_features chk M AV env features)
               (\<lambda>r. Inr (r, vm\<lparr>VM_L2_data_cache_line_size := 0\<rparr>, name))"
proof -
  note u = PICL_new_unavailable [of "picl_lib env" chk, OF assms]
  have "platform_features chk M AV env name vm features
           = and_then (detect_features chk M AV env features)
               (\<lambda>r. Inr (r, vm\<lparr>VM_L2_data_cache_line_size := 0\<rparr>, name))"
    by (simp add: platform_features_def u)
  with u show ?thesis by blast
qed

theorem library_unavailable_witness:
  "PICL_new debug_build sample_picl_env_absent None False True
     = Inr (\<lparr>m_L1_data_cache_line_size = 0, m_L2_data_cache_line_size = 0, m_dl_handle = None\<rparr>,
            None)
   \<and> PICL_new product_build sample_picl_env_partial None False True
     = Inr (\<lparr>m_L1_data_cache_line_size = 0, m_L2_data_cache_line_size = 0, m_dl_handle = None\<rparr>,
            None)
   \<and> platform_features product_build sample_M solaris_AV
        (sample_os_env True 0x63 [] ''sun4v'' ''SPARC-T4'' sample_picl_env_partial)
        None \<lparr>VM_L2_data_cache_line_size = 7\<rparr> 0
     = Inr (0x101EF, \<lparr>VM_L2_data_cache_line_size = 0\<rparr>, None)"
proof -
  let ?a = "sample_os_env True 0x63 [] ''sun4v'' ''SPARC-T4'' sample_picl_env_absent"
  let ?p = "sample_os_env True 0x63 [] ''sun4v'' ''SPARC-T4'' sample_picl_env_partial"
  have la: "picl_lib ?a = sample_picl_env_absent" and lp: "picl_lib ?p = sample_picl_env_partial"
    by (simp_all add: sample_os_env_def)
  have a: "dlopen_libpicl (picl_lib ?a) = None
         \<or> ((\<exists>nm\<in>set [''picl_initialize'', ''picl_shutdown'', ''picl_get_root'',
                          ''picl_walk_tree_by_class'', ''picl_get_prop_by_name'',
                          ''picl_get_propval'', ''picl_get_propinfo''].
                 dlsym (picl_lib ?a) nm = None)
             \<and> \<not> debug_build ''unexpected PICL API change'')"
    by (simp add: sample_os_env_def sample_picl_env_absent_def)
  have p: "dlopen_libpicl (picl_lib ?p) = None
         \<or> ((\<exists>nm\<in>set [''picl_initialize'', ''picl_shutdown'', ''picl_get_root'',
                          ''picl_walk_tree_by_class'', ''picl_get_prop_by_name'',
                          ''picl_get_propval'', ''picl_get_propinfo''].
                 dlsym (picl_lib ?p) nm = None)
             \<and> \<not> product_build ''unexpected PICL API change'')"
    by (simp add: sample_os_env_def sample_picl_env_partial_def product_build_def)
  have d: "detect_features product_build sample_M solaris_AV ?p 0 = Inr 0x101EF"
    by code_simp
  from library_unavailable [where env = ?a and chk = debug_build and name = None
      and is_fujitsu = False and is_sun4v = True, OF a]
  have 1: "PICL_new debug_build sample_picl_env_absent None False True
     = Inr (\<lparr>m_L1_data_cache_line_size = 0, m_L2_data_cache_line_size = 0, m_dl_handle = None\<rparr>,
            None)"
    unfolding la by (rule conjunct1)
  from library_unavailable [where env = ?p and chk = product_build and name = None
      and is_fujitsu = False and is_sun4v = True
      and M = sample_M and AV = solaris_AV and vm = "\<lparr>VM_L2_data_cache_line_size = 7\<rparr>"
      and features = 0, OF p]
  have 2: "PICL_new product_build sample_picl_env_partial None False True
     = Inr (\<lparr>m_L1_data_cache_line_size = 0, m_L2_data_cache_line_size = 0, m_dl_handle = None\<rparr>,
            None)"
    and 3: "platform_features product_build sample_M solaris_AV ?p
        None \<lparr>VM_L2_data_cache_line_size = 7\<rparr> 0
     = and_then (detect_features product_build sample_M solaris_AV ?p 0)
         (\<lambda>r. Inr (r, \<lparr>VM_L2_data_cache_line_size = 7\<rparr>\<lparr>VM_L2_data_cache_line_size := 0\<rparr>, None))"
    unfolding lp by blast+
  from 3 have "platform_features product_build sample_M solaris_AV ?p
        None \<lparr>VM_L2_data_cache_line_size = 7\<rparr> 0
     = Inr (0x101EF, \<lparr>VM_L2_data_cache_line_size = 0\<rparr>, None)"
    unfolding d by simp
  with 1 2 show ?thesis by blast
qed

text \<open>
  C5, as the claim has it, fails in a build with assertions: the library loads,
  \<^verbatim>\<open>picl_get_propinfo\<close> is not found, and the constructor ends in the failed
  assertion \<^verbatim>\<open>"unexpected PICL API change"\<close> instead of returning.
\<close>

theorem library_unavailable_counterexample:
  "dlopen_libpicl sample_picl_env_partial = Some 1
   \<and> dlsym sample_picl_env_partial ''picl_get_propinfo'' = None
   \<and> PICL_new debug_build sample_picl_env_partial None False True
       = Inl (AssertionFailed ''unexpected PICL API change'')
   \<and> platform_features debug_build sample_M solaris_AV
        (sample_os_env True 0x63 [] ''sun4v'' ''SPARC-T4'' sample_picl_env_partial)
        None \<lparr>VM_L2_data_cache_line_size = 7\<rparr> 0
       = Inl (AssertionFailed ''unexpected PICL API change'')"
  by code_simp

text \<open>
  C9. When \<^verbatim>\<open>platform_features\<close> returns, the static members of \<^verbatim>\<open>VM_Version\<close>
  are those it found, except that \<^verbatim>\<open>_L2_data_cache_line_size\<close> is the L2 size of
  the probe object. The L1 size of that object goes nowhere, and every other member
  is as before.
\<close>

theorem only_L2_is_stored:
  assumes "platform_features chk M AV env name vm features = Inr (r, vm', name')"
  shows "\<exists>picl. PICL_new chk (picl_lib env) name (r AND M sparc64_family_m \<noteq> 0)
                  (r AND M sun4v_m \<noteq> 0) = Inr (picl, name')
           \<and> vm' = vm\<lparr>VM_L2_data_cache_line_size := m_L2_data_cache_line_size picl\<rparr>
           \<and> VM_Version.more vm' = VM_Version.more vm"
proof -
  from platform_features_parts [OF assms] obtain picl where
    p: "PICL_new chk (picl_lib env) name (r AND M sparc64_family_m \<noteq> 0)
          (r AND M sun4v_m \<noteq> 0) = Inr (picl, name')"
    and v: "vm' = vm\<lparr>VM_L2_data_cache_line_size := m_L2_data_cache_line_size picl\<rparr>"
    by blast
  from v have "VM_Version.more vm' = VM_Version.more vm" by simp
  with p v show ?thesis by blast
qed

theorem only_L2_is_stored_witness:
  "PICL_new debug_build (sample_picl_env [sample_cpu 64 128, sample_cpu 64 128] 2)
     None False False
     = Inr (\<lparr>m_L1_data_cache_line_size = 64, m_L2_data_cache_line_size = 128, m_dl_handle = None\<rparr>,
            Some ''l2-cache-line-size'')
   \<and> platform_features debug_build sample_M solaris_AV
        (sample_os_env True 0x63 [] ''sun4u'' ''UltraSPARC-IIIi''
           (sample_picl_env [sample_cpu 64 128, sample_cpu 64 128] 2))
        None \<lparr>VM_L2_data_cache_line_size = 7, \<dots> = ''other members''\<rparr> 0
     = Inr (0xEF, \<lparr>VM_L2_data_cache_line_size = 128, \<dots> = ''other members''\<rparr>,
            Some ''l2-cache-line-size'')"
proof -
  let ?penv = "sample_picl_env [sample_cpu 64 128, sample_cpu 64 128] 2"
  let ?env = "sample_os_env True 0x63 [] ''sun4u'' ''UltraSPARC-IIIi'' ?penv"
  have e: "platform_features debug_build sample_M solaris_AV ?env
        None \<lparr>VM_L2_data_cache_line_size = 7, \<dots> = ''other members''\<rparr> 0
     = Inr (0xEF, \<lparr>VM_L2_data_cache_line_size = 128, \<dots> = ''other members''\<rparr>,
            Some ''l2-cache-line-size'')"
    by code_simp
  have p: "PICL_new debug_build ?penv None False False
     = Inr (\<lparr>m_L1_data_cache_line_size = 64, m_L2_data_cache_line_size = 128, m_dl_handle = None\<rparr>,
            Some ''l2-cache-line-size'')"
    by code_simp
  from only_L2_is_stored [OF e]
  have "VM_Version.more \<lparr>VM_L2_data_cache_line_size = 128, \<dots> = ''other members''\<rparr>
          = VM_Version.more \<lparr>VM_L2_data_cache_line_size = 7, \<dots> = ''other members''\<rparr>"
    by blast
  with e p show ?thesis by blast
qed

section \<open>Which checks can fail in platform_features\<close>

lemma isa_features_abort_kind:
  assumes "isa_features chk M AV env a = Inl e"
  shows "e = GuaranteeFailed ''must be supported''
       \<or> e = AssertionFailed ''should return two or less av's''"
  using assms
  by (auto simp: isa_features_def do_sysinfo_cases vm_assert_def Let_def split: if_splits)

lemma kstat_features_abort_kind:
  assumes "kstat_features chk M env a = Inl e"
  shows "e = AssertionFailed ''unknown cpu info (changed kstat interface?)''"
  using assms
  by (auto simp: kstat_features_def vm_assert_def and_then_def
      split: prod.splits if_splits)

lemma detect_features_abort_kind:
  assumes "detect_features chk M AV env a = Inl e"
  shows "e = GuaranteeFailed ''must be supported''
       \<or> e = AssertionFailed ''should return two or less av's''
       \<or> e = AssertionFailed ''unknown cpu info (changed kstat interface?)''"
proof (cases "isa_features chk M AV env a")
  case (Inl e')
  with assms have "e = e'" by (simp add: detect_features_def)
  with isa_features_abort_kind [OF Inl] show ?thesis by auto
next
  case (Inr f)
  show ?thesis
  proof (cases "si_needed (sysinfo env SI_MACHINE) = - 1")
    case True
    with assms Inr show ?thesis by (simp add: detect_features_def do_sysinfo_cases)
  next
    case False
    with assms Inr obtain f' where "kstat_features chk M env f' = Inl e"
      by (simp add: detect_features_def do_sysinfo_cases)
    from kstat_features_abort_kind [OF this] show ?thesis by auto
  qed
qed

lemma platform_features_abort_kind:
  assumes "platform_features chk M AV env name vm a = Inl e"
  shows "e = GuaranteeFailed ''must be supported''
       \<or> e = AssertionFailed ''should return two or less av's''
       \<or> e = AssertionFailed ''unknown cpu info (changed kstat interface?)''
       \<or> e = AssertionFailed ''unexpected PICL API change''
       \<or> e = AssertionFailed ''Invalid property type''
       \<or> e = AssertionFailed ''Unexpected integer property size''"
proof (cases "detect_features chk M AV env a")
  case (Inl e')
  with assms have "e = e'" by (simp add: platform_features_def)
  with detect_features_abort_kind [OF Inl] show ?thesis by auto
next
  case (Inr f)
  with assms have "PICL_new chk (picl_lib env) name (f AND M sparc64_family_m \<noteq> 0)
                     (f AND M sun4v_m \<noteq> 0) = Inl e"
    by (cases "PICL_new chk (picl_lib env) name (f AND M sparc64_family_m \<noteq> 0)
                 (f AND M sun4v_m \<noteq> 0)")
       (auto simp: platform_features_def)
  from PICL_new_abort_kind [OF this] show ?thesis by auto
qed

text \<open>
  C10. No run of the constructor \<^verbatim>\<open>PICL::PICL\<close>, and no run of
  \<^verbatim>\<open>platform_features\<close>, which is where the constructor is called, ends in a
  failed \<^verbatim>\<open>"Precondition"\<close> assertion of \<^verbatim>\<open>value()\<close>, \<^verbatim>\<open>set_value()\<close> or
  \<^verbatim>\<open>UniqueValueVisitor::visit()\<close>, nor in the failed assertion that the first
  iteration is not inconsistent: in any build, and whichever assertions are watched.
\<close>

theorem preconditions_never_fail:
  "PICL_new chk env name is_fujitsu is_sun4v \<noteq> Inl (AssertionFailed ''Precondition'')
   \<and> PICL_new chk env name is_fujitsu is_sun4v
       \<noteq> Inl (AssertionFailed ''First iteration cannot be inconsistent'')
   \<and> platform_features chk M AV os name vm features \<noteq> Inl (AssertionFailed ''Precondition'')
   \<and> platform_features chk M AV os name vm features
       \<noteq> Inl (AssertionFailed ''First iteration cannot be inconsistent'')"
  using PICL_new_abort_kind [of chk env name is_fujitsu is_sun4v]
    platform_features_abort_kind [of chk M AV os name vm features]
  by auto

theorem preconditions_never_fail_witness:
  "PICL_new debug_build (sample_picl_env [sample_cpu 64 128, sample_cpu 32 64, sample_cpu 64 64] 4)
     None False False
     = Inr (\<lparr>m_L1_data_cache_line_size = 0, m_L2_data_cache_line_size = 0, m_dl_handle = None\<rparr>,
            Some ''l2-cache-line-size'')
   \<and> PICL_new debug_build (sample_picl_env [sample_cpu 64 128, sample_cpu 32 64, sample_cpu 64 64] 4)
       None False False \<noteq> Inl (AssertionFailed ''Precondition'')"
proof -
  have "PICL_new debug_build
          (sample_picl_env [sample_cpu 64 128, sample_cpu 32 64, sample_cpu 64 64] 4)
          None False False
     = Inr (\<lparr>m_L1_data_cache_line_size = 0, m_L2_data_cache_line_size = 0, m_dl_handle = None\<rparr>,
            Some ''l2-cache-line-size'')"
    by code_simp
  with preconditions_never_fail
    [of debug_build "sample_picl_env [sample_cpu 64 128, sample_cpu 32 64, sample_cpu 64 64] 4"
      None False False]
  show ?thesis by blast
qed

end
